theory Spec2Isabelle
  imports Complex_Main "HOL-Library.Log_Nat"
begin

section \<open>Python values\<close>

text \<open>
  The module \<^verbatim>\<open>cqlengine/functions.py\<close> is Python 2 (it calls \<^verbatim>\<open>long\<close>).  The values it
  handles are modelled by a small universe: \<^verbatim>\<open>None\<close>, integers (\<^verbatim>\<open>int\<close> and \<^verbatim>\<open>long\<close> are
  both unbounded here and compare equal in Python), strings, lists and tuples, \<^verbatim>\<open>datetime\<close>
  objects, and any other object, known only by its identity.
\<close>

datatype pyerror =
    ValidationError string
  | TypeError
  | AttributeError
  | OtherError nat

record timedelta =
  days :: int
  seconds :: int
  microseconds :: int

record naive_datetime =
  year :: int
  month :: int
  day :: int
  hour :: int
  minute :: int
  second :: int
  microsecond :: int

text \<open>
  A \<^verbatim>\<open>tzinfo\<close> object is its \<^verbatim>\<open>utcoffset(dt)\<close> method: called with a datetime (of which it
  sees the wall-clock fields), it returns a \<^verbatim>\<open>timedelta\<close>, returns \<^verbatim>\<open>None\<close>, or raises.
\<close>

datatype tzinfo = TzInfo (utcoffset: "naive_datetime \<Rightarrow> pyerror + timedelta option")

record datetime = naive_datetime +
  tzinfo :: "tzinfo option"

datatype seqkind = PyList | PyTuple

datatype pyval =
    PNone
  | PInt int
  | PStr string
  | PSeq seqkind "pyval list"
  | PDatetime datetime
  | PObject nat

section \<open>Floating point\<close>

text \<open>
  A Python \<^verbatim>\<open>float\<close> is an IEEE 754 binary64 number.  A finite one is modelled by the
  rational it denotes, and every operation is the exact operation followed by rounding to
  the nearest number with a 53-bit significand, ties to the even significand.  The exponent
  is not bounded in the model: the magnitudes met here (from \<open>10\<^sup>-\<^sup>6\<close> up to the milliseconds
  of a \<^verbatim>\<open>timedelta\<close>) are far inside the range of binary64.
\<close>

type_synonym pyfloat = rat

definition flog2 :: "rat \<Rightarrow> int" where
  "flog2 q = (let (a, b) = quotient_of q; k = bitlen a - bitlen b
              in if 2 powi k \<le> q then k else k - 1)"

definition round_half_even :: "rat \<Rightarrow> int" where
  "round_half_even x =
     (let f = \<lfloor>x\<rfloor>; d = x - of_int f
      in if d < 1 / 2 then f else if 1 / 2 < d then f + 1 else if even f then f else f + 1)"

definition fl64 :: "rat \<Rightarrow> pyfloat" where
  "fl64 q = (if q = 0 then 0
             else let u = 2 powi (flog2 \<bar>q\<bar> - 52)
                  in sgn q * of_int (round_half_even (\<bar>q\<bar> / u)) * u)"

definition float_sub :: "pyfloat \<Rightarrow> pyfloat \<Rightarrow> pyfloat" where
  "float_sub x y = fl64 (x - y)"

definition float_mul :: "pyfloat \<Rightarrow> pyfloat \<Rightarrow> pyfloat" where
  "float_mul x y = fl64 (x * y)"

text \<open>\<^verbatim>\<open>a / b\<close> of two integers under true division is correctly rounded.\<close>

definition int_true_divide :: "int \<Rightarrow> int \<Rightarrow> pyfloat" where
  "int_true_divide a b = fl64 (of_int a / of_int b)"

text \<open>\<^verbatim>\<open>long(x)\<close> of a float truncates toward zero.\<close>

definition long :: "pyfloat \<Rightarrow> int" where
  "long x = (if 0 \<le> x then \<lfloor>x\<rfloor> else \<lceil>x\<rceil>)"

section \<open>The datetime module\<close>

definition is_leap :: "int \<Rightarrow> bool" where
  "is_leap y = (y mod 4 = 0 \<and> (y mod 100 \<noteq> 0 \<or> y mod 400 = 0))"

definition days_before_year :: "int \<Rightarrow> int" where
  "days_before_year y = (let y' = y - 1 in y' * 365 + y' div 4 - y' div 100 + y' div 400)"

definition days_in_month_table :: "int list" where
  "days_in_month_table = [0, 31, 28, 31, 30, 31, 30, 31, 31, 30, 31, 30, 31]"

definition days_before_month_table :: "int list" where
  "days_before_month_table = [0, 0, 31, 59, 90, 120, 151, 181, 212, 243, 273, 304, 334]"

text \<open>A month is in \<open>1..12\<close> in every datetime object; the last branch is never taken.\<close>

definition days_in_month :: "int \<Rightarrow> int \<Rightarrow> int" where
  "days_in_month y m =
     (if m = 2 \<and> is_leap y then 29
      else if 1 \<le> m \<and> m \<le> 12 then days_in_month_table ! nat m else 0)"

definition days_before_month :: "int \<Rightarrow> int \<Rightarrow> int" where
  "days_before_month y m =
     (if 1 \<le> m \<and> m \<le> 12
      then days_before_month_table ! nat m + (if 2 < m \<and> is_leap y then 1 else 0)
      else 0)"

definition ymd_to_ord :: "int \<Rightarrow> int \<Rightarrow> int \<Rightarrow> int" where
  "ymd_to_ord y m d = days_before_year y + days_before_month y m + d"

text \<open>The field ranges the \<^verbatim>\<open>datetime\<close> constructor enforces.\<close>

definition valid_datetime :: "'a naive_datetime_scheme \<Rightarrow> bool" where
  "valid_datetime t =
     (1 \<le> year t \<and> year t \<le> 9999 \<and> 1 \<le> month t \<and> month t \<le> 12 \<and>
      1 \<le> day t \<and> day t \<le> days_in_month (year t) (month t) \<and>
      0 \<le> hour t \<and> hour t < 24 \<and> 0 \<le> minute t \<and> minute t < 60 \<and>
      0 \<le> second t \<and> second t < 60 \<and> 0 \<le> microsecond t \<and> microsecond t < 1000000)"

text \<open>
  \<^verbatim>\<open>new_delta(days, seconds, microseconds, normalize=1)\<close>: microseconds carry into seconds,
  seconds into days, with floor division.
\<close>

definition new_delta :: "int \<Rightarrow> int \<Rightarrow> int \<Rightarrow> timedelta" where
  "new_delta d s us =
     (let s1 = s + us div 1000000; us1 = us mod 1000000;
          d1 = d + s1 div 86400; s2 = s1 mod 86400
      in \<lparr>days = d1, seconds = s2, microseconds = us1\<rparr>)"

text \<open>
  \<^verbatim>\<open>left - right\<close> for two datetimes that hold the same \<^verbatim>\<open>tzinfo\<close> object (or none): the
  offsets are not consulted and the result is the difference of the wall-clock fields.
  The only subtraction in the module is \<^verbatim>\<open>self.value - epoch\<close>, where \<^verbatim>\<open>epoch\<close> was built
  with \<^verbatim>\<open>tzinfo=self.value.tzinfo\<close>.
\<close>

definition datetime_sub :: "'a naive_datetime_scheme \<Rightarrow> 'b naive_datetime_scheme \<Rightarrow> timedelta" where
  "datetime_sub l r =
     new_delta
       (ymd_to_ord (year l) (month l) (day l) - ymd_to_ord (year r) (month r) (day r))
       ((hour l - hour r) * 3600 + (minute l - minute r) * 60 + (second l - second r))
       (microsecond l - microsecond r)"

definition total_seconds :: "timedelta \<Rightarrow> pyfloat" where
  "total_seconds td =
     int_true_divide ((days td * 86400 + seconds td) * 1000000 + microseconds td) 1000000"

text \<open>\<^verbatim>\<open>datetime(y, m, d, tzinfo=tz)\<close>: midnight of the given day.\<close>

definition datetime_of_date :: "int \<Rightarrow> int \<Rightarrow> int \<Rightarrow> tzinfo option \<Rightarrow> datetime" where
  "datetime_of_date y m d tz =
     \<lparr>year = y, month = m, day = d, hour = 0, minute = 0, second = 0, microsecond = 0,
      tzinfo = tz\<rparr>"

section \<open>Strings\<close>

text \<open>\<^verbatim>\<open>str(n)\<close> of an integer: its decimal digits, after a minus sign when it is negative.\<close>

definition digit_char :: "nat \<Rightarrow> char" where
  "digit_char d = ''0123456789'' ! d"

fun str_nat :: "nat \<Rightarrow> string" where
  "str_nat n = (if n < 10 then [digit_char n] else str_nat (n div 10) @ [digit_char (n mod 10)])"

declare str_nat.simps [simp del]

definition str_int :: "int \<Rightarrow> string" where
  "str_int i = (if i < 0 then CHR ''-'' # str_nat (nat (- i)) else str_nat (nat i))"

text \<open>
  \<^verbatim>\<open>str(self.context_id)\<close>, and the text \<^verbatim>\<open>'{}'.format(self.context_id)\<close> puts in the field:
  a context id that was never assigned is \<^verbatim>\<open>None\<close>.
\<close>

fun str_context_id :: "int option \<Rightarrow> string" where
  "str_context_id None = ''None''"
| "str_context_id (Some i) = str_int i"

text \<open>
  \<^verbatim>\<open>template.format(arg)\<close> for a template with one replacement field \<^verbatim>\<open>{}\<close> and no other
  brace, as all templates of the module are; \<open>arg\<close> is the argument's text.
\<close>

fun py_format :: "string \<Rightarrow> string \<Rightarrow> string" where
  "py_format [] arg = []"
| "py_format (c # cs) arg =
     (if c = CHR ''{'' \<and> take 1 cs = ''}'' then arg @ drop 1 cs else c # py_format cs arg)"

text \<open>\<^verbatim>\<open>sep.join(parts)\<close>.\<close>

fun py_join :: "string \<Rightarrow> string list \<Rightarrow> string" where
  "py_join sep [] = []"
| "py_join sep [p] = p"
| "py_join sep (p # q # ps) = p @ sep @ py_join sep (q # ps)"

section \<open>Query values\<close>

text \<open>
  The binding context is a Python dict with string keys.  A column is its
  \<^verbatim>\<open>to_database(val)\<close> method, which returns the value to store or raises.
\<close>

type_synonym binding_context = "string \<rightharpoonup> pyval"

datatype column = Column (to_database: "pyval \<Rightarrow> pyerror + pyval")

text \<open>
  One constructor per class, holding \<^verbatim>\<open>self.value\<close>, \<^verbatim>\<open>self.context_id\<close> and, for a token,
  \<^verbatim>\<open>self._columns\<close>.  The types record what the constructors establish: the value of a
  \<^verbatim>\<open>MinTimeUUID\<close> or \<^verbatim>\<open>MaxTimeUUID\<close> is a datetime, the value of a \<^verbatim>\<open>Token\<close> is a list or a
  tuple (its kind and its items).  \<^verbatim>\<open>BaseQueryFunction\<close> adds nothing to \<^verbatim>\<open>QueryValue\<close>.
\<close>

datatype query_value =
    QueryValue pyval "int option"
  | MinTimeUUID datetime "int option"
  | MaxTimeUUID datetime "int option"
  | Token seqkind "pyval list" "int option" "column list option"

subsection \<open>Constructors\<close>

definition QueryValue_init :: "pyval \<Rightarrow> query_value" where
  "QueryValue_init v = QueryValue v None"

fun isinstance_datetime :: "pyval \<Rightarrow> bool" where
  "isinstance_datetime (PDatetime d) = True"
| "isinstance_datetime v = False"

fun isinstance_list_tuple :: "pyval \<Rightarrow> bool" where
  "isinstance_list_tuple (PSeq k xs) = True"
| "isinstance_list_tuple v = False"

fun MinTimeUUID_init :: "pyval \<Rightarrow> pyerror + query_value" where
  "MinTimeUUID_init (PDatetime d) = Inr (MinTimeUUID d None)"
| "MinTimeUUID_init v = Inl (ValidationError ''datetime instance is required'')"

fun MaxTimeUUID_init :: "pyval \<Rightarrow> pyerror + query_value" where
  "MaxTimeUUID_init (PDatetime d) = Inr (MaxTimeUUID d None)"
| "MaxTimeUUID_init v = Inl (ValidationError ''datetime instance is required'')"

text \<open>
  \<^verbatim>\<open>Token(*values)\<close>: the argument tuple itself is the value, unless it has one element
  that is a list or a tuple, which then is the value.
\<close>

fun Token_init :: "pyval list \<Rightarrow> query_value" where
  "Token_init [PSeq k xs] = Token k xs None None"
| "Token_init values = Token PyTuple values None None"

subsection \<open>Methods\<close>

fun context_id :: "query_value \<Rightarrow> int option" where
  "context_id (QueryValue v cid) = cid"
| "context_id (MinTimeUUID d cid) = cid"
| "context_id (MaxTimeUUID d cid) = cid"
| "context_id (Token k xs cid cols) = cid"

fun set_context_id :: "query_value \<Rightarrow> int \<Rightarrow> query_value" where
  "set_context_id (QueryValue v cid) ctx_id = QueryValue v (Some ctx_id)"
| "set_context_id (MinTimeUUID d cid) ctx_id = MinTimeUUID d (Some ctx_id)"
| "set_context_id (MaxTimeUUID d cid) ctx_id = MaxTimeUUID d (Some ctx_id)"
| "set_context_id (Token k xs cid cols) ctx_id = Token k xs (Some ctx_id) cols"

text \<open>Only \<^verbatim>\<open>Token\<close> has \<^verbatim>\<open>set_columns\<close>; the other classes have no such attribute.\<close>

fun set_columns :: "query_value \<Rightarrow> column list \<Rightarrow> pyerror + query_value" where
  "set_columns (Token k xs cid cols) columns = Inr (Token k xs cid (Some columns))"
| "set_columns q columns = Inl AttributeError"

text \<open>The items of a token's value, in order.\<close>

fun token_items :: "query_value \<Rightarrow> pyval list" where
  "token_items (Token k xs cid cols) = xs"
| "token_items q = []"

fun get_context_size :: "query_value \<Rightarrow> nat" where
  "get_context_size (Token k xs cid cols) = length xs"
| "get_context_size q = 1"

definition QueryValue_format_string :: string where
  "QueryValue_format_string = '':{}''"

definition MinTimeUUID_format_string :: string where
  "MinTimeUUID_format_string = ''MinTimeUUID(:{})''"

definition MaxTimeUUID_format_string :: string where
  "MaxTimeUUID_format_string = ''MaxTimeUUID(:{})''"

text \<open>
  \<^verbatim>\<open>__unicode__\<close>.  In a token, \<^verbatim>\<open>self.context_id + i\<close> raises \<^verbatim>\<open>TypeError\<close> for the first
  \<open>i\<close> when the context id is \<^verbatim>\<open>None\<close>.
\<close>

fun unicode :: "query_value \<Rightarrow> pyerror + string" where
  "unicode (QueryValue v cid) = Inr (py_format QueryValue_format_string (str_context_id cid))"
| "unicode (MinTimeUUID d cid) = Inr (py_format MinTimeUUID_format_string (str_context_id cid))"
| "unicode (MaxTimeUUID d cid) = Inr (py_format MaxTimeUUID_format_string (str_context_id cid))"
| "unicode (Token k xs cid cols) =
     (let n = get_context_size (Token k xs cid cols)
      in case cid of
           None \<Rightarrow>
             if n = 0 then Inr (py_format ''token({})'' (py_join '', '' [])) else Inl TypeError
         | Some c \<Rightarrow>
             Inr (py_format ''token({})''
                    (py_join '', '' (map (\<lambda>i. py_format '':{}'' (str_int (c + int i))) [0..<n]))))"

text \<open>The wall-clock fields a \<^verbatim>\<open>tzinfo\<close> method reads from the datetime it is given.\<close>

definition wall_clock :: "datetime \<Rightarrow> naive_datetime" where
  "wall_clock t =
     \<lparr>year = year t, month = month t, day = day t, hour = hour t, minute = minute t,
      second = second t, microsecond = microsecond t\<rparr>"

text \<open>
  \<^verbatim>\<open>update_context\<close> of the two time functions.  A dict assignment evaluates its right-hand
  side first, so an exception of \<^verbatim>\<open>utcoffset\<close>, or the \<^verbatim>\<open>AttributeError\<close> of
  \<^verbatim>\<open>None.total_seconds()\<close>, leaves the context as it was.
\<close>

definition MinTimeUUID_update_context ::
    "datetime \<Rightarrow> int option \<Rightarrow> binding_context \<Rightarrow> pyerror option \<times> binding_context" where
  "MinTimeUUID_update_context self_value self_context_id ctx =
     (let epoch = datetime_of_date 1970 1 1 (tzinfo self_value)
      in case (case tzinfo epoch of
                 Some tz \<Rightarrow>
                   (case utcoffset tz (wall_clock epoch) of
                      Inl e \<Rightarrow> Inl e
                    | Inr None \<Rightarrow> Inl AttributeError
                    | Inr (Some td) \<Rightarrow> Inr (total_seconds td))
               | None \<Rightarrow> Inr 0) of
           Inl e \<Rightarrow> (Some e, ctx)
         | Inr offset \<Rightarrow>
             (None,
              ctx(str_context_id self_context_id \<mapsto>
                PInt (long (float_mul
                  (float_sub (total_seconds (datetime_sub self_value epoch)) offset) 1000)))))"

definition MaxTimeUUID_update_context ::
    "datetime \<Rightarrow> int option \<Rightarrow> binding_context \<Rightarrow> pyerror option \<times> binding_context" where
  "MaxTimeUUID_update_context self_value self_context_id ctx =
     (let epoch = datetime_of_date 1970 1 1 (tzinfo self_value)
      in case (case tzinfo epoch of
                 Some tz \<Rightarrow>
                   (case utcoffset tz (wall_clock epoch) of
                      Inl e \<Rightarrow> Inl e
                    | Inr None \<Rightarrow> Inl AttributeError
                    | Inr (Some td) \<Rightarrow> Inr (total_seconds td))
               | None \<Rightarrow> Inr 0) of
           Inl e \<Rightarrow> (Some e, ctx)
         | Inr offset \<Rightarrow>
             (None,
              ctx(str_context_id self_context_id \<mapsto>
                PInt (long (float_mul
                  (float_sub (total_seconds (datetime_sub self_value epoch)) offset) 1000)))))"

text \<open>
  The loop of \<^verbatim>\<open>Token.update_context\<close> over \<^verbatim>\<open>enumerate(zip(self._columns, self.value))\<close>,
  from index \<open>i\<close>.  Each step calls \<^verbatim>\<open>col.to_database(val)\<close>, then computes the key
  (\<^verbatim>\<open>None + i\<close> raises \<^verbatim>\<open>TypeError\<close>), then writes.  An exception ends the loop and keeps
  what was written before it.
\<close>

fun Token_update_loop ::
    "int option \<Rightarrow> nat \<Rightarrow> (column \<times> pyval) list \<Rightarrow> binding_context \<Rightarrow>
     pyerror option \<times> binding_context" where
  "Token_update_loop cid i [] ctx = (None, ctx)"
| "Token_update_loop cid i ((col, val) # ps) ctx =
     (case to_database col val of
        Inl e \<Rightarrow> (Some e, ctx)
      | Inr stored \<Rightarrow>
          (case cid of
             None \<Rightarrow> (Some TypeError, ctx)
           | Some c \<Rightarrow> Token_update_loop cid (Suc i) ps (ctx(str_int (c + int i) \<mapsto> stored))))"

text \<open>
  \<^verbatim>\<open>update_context\<close>: the exception raised, if any, and the context as the call leaves it.
  \<^verbatim>\<open>zip(None, ...)\<close> raises \<^verbatim>\<open>TypeError\<close> before the loop starts; \<^verbatim>\<open>zip\<close> of two sequences
  stops at the end of the shorter one.
\<close>

fun update_context :: "query_value \<Rightarrow> binding_context \<Rightarrow> pyerror option \<times> binding_context" where
  "update_context (QueryValue v cid) ctx = (None, ctx(str_context_id cid \<mapsto> v))"
| "update_context (MinTimeUUID d cid) ctx = MinTimeUUID_update_context d cid ctx"
| "update_context (MaxTimeUUID d cid) ctx = MaxTimeUUID_update_context d cid ctx"
| "update_context (Token k xs cid cols) ctx =
     (case cols of
        None \<Rightarrow> (Some TypeError, ctx)
      | Some cs \<Rightarrow> Token_update_loop cid 0 (zip cs xs) ctx)"

section \<open>The specification's terms\<close>

text \<open>
  The definitions of this section follow the words of the specification, not the code:
  they are what the claims about the time functions are stated with.
\<close>

text \<open>Whole microseconds of a wall clock, counted from the day before 0001-01-01.\<close>

definition wall_microseconds :: "'a naive_datetime_scheme \<Rightarrow> int" where
  "wall_microseconds t =
     (ymd_to_ord (year t) (month t) (day t) * 86400 + hour t * 3600 + minute t * 60 + second t)
       * 1000000 + microsecond t"

definition timedelta_microseconds :: "timedelta \<Rightarrow> int" where
  "timedelta_microseconds td = (days td * 86400 + seconds td) * 1000000 + microseconds td"

text \<open>``The zero timestamp in the same timezone representation as the input''.\<close>

definition epoch_of :: "datetime \<Rightarrow> datetime" where
  "epoch_of t = datetime_of_date 1970 1 1 (tzinfo t)"

definition microseconds_since_epoch :: "datetime \<Rightarrow> int" where
  "microseconds_since_epoch t = wall_microseconds t - wall_microseconds (epoch_of t)"

text \<open>
  ``offsetSeconds: the UTC offset, in seconds, of that epoch value if it carries timezone
  information, else 0''; there is none when \<^verbatim>\<open>utcoffset\<close> does not return a timedelta.
\<close>

definition offset_seconds :: "datetime \<Rightarrow> pyfloat option" where
  "offset_seconds t =
     (case tzinfo t of
        None \<Rightarrow> Some 0
      | Some tz \<Rightarrow>
          (case utcoffset tz (wall_clock (epoch_of t)) of
             Inr (Some td) \<Rightarrow> Some (total_seconds td)
           | _ \<Rightarrow> None))"

text \<open>
  The millisecond value as claim C1 words it: truncate the seconds, then multiply by 1000;
  and with the two steps in the other order.
\<close>

definition truncate_then_scale :: "datetime \<Rightarrow> pyfloat \<Rightarrow> int" where
  "truncate_then_scale t off =
     long (float_sub (int_true_divide (microseconds_since_epoch t) 1000000) off) * 1000"

definition scale_then_truncate :: "datetime \<Rightarrow> pyfloat \<Rightarrow> int" where
  "scale_then_truncate t off =
     long (float_mul (float_sub (int_true_divide (microseconds_since_epoch t) 1000000) off) 1000)"

text \<open>
  ``\<^verbatim>\<open>round(t.secondsSinceEpoch() * 1000)\<close>'' of claim C4, on the exact number of seconds, and
  the truncation of the floating-point product that stands in its place.
\<close>

definition rounded_milliseconds :: "datetime \<Rightarrow> int" where
  "rounded_milliseconds t = round (of_int (microseconds_since_epoch t) / 1000000 * 1000 :: rat)"

definition truncated_milliseconds :: "datetime \<Rightarrow> int" where
  "truncated_milliseconds t =
     long (float_mul (int_true_divide (microseconds_since_epoch t) 1000000) 1000)"

text \<open>
  The instant a timestamp denotes, in microseconds since 1970-01-01T00:00:00 UTC: its wall
  clock less the offset its own \<^verbatim>\<open>tzinfo\<close> gives for it; a timestamp without \<^verbatim>\<open>tzinfo\<close> is
  read as UTC.
\<close>

definition utc_microseconds :: "datetime \<Rightarrow> int option" where
  "utc_microseconds t =
     (case tzinfo t of
        None \<Rightarrow> Some (microseconds_since_epoch t)
      | Some tz \<Rightarrow>
          (case utcoffset tz (wall_clock t) of
             Inr (Some off) \<Rightarrow> Some (microseconds_since_epoch t - timedelta_microseconds off)
           | _ \<Rightarrow> None))"

definition same_instant :: "datetime \<Rightarrow> datetime \<Rightarrow> bool" where
  "same_instant t1 t2 = (utc_microseconds t1 \<noteq> None \<and> utc_microseconds t1 = utc_microseconds t2)"

text \<open>
  A timestamp whose \<^verbatim>\<open>tzinfo\<close>, if it has one, gives at the epoch the offset it gives at the
  timestamp, a whole number of seconds of less than a day.
\<close>

definition steady_offset :: "datetime \<Rightarrow> bool" where
  "steady_offset t =
     (case tzinfo t of
        None \<Rightarrow> True
      | Some tz \<Rightarrow>
          (case utcoffset tz (wall_clock t) of
             Inr (Some off) \<Rightarrow>
               utcoffset tz (wall_clock (epoch_of t)) = Inr (Some off) \<and>
               microseconds off = 0 \<and> - 1 \<le> days off \<and> days off \<le> 0 \<and>
               0 \<le> seconds off \<and> seconds off < 86400
           | _ \<Rightarrow> False))"

text \<open>A \<^verbatim>\<open>tzinfo\<close> whose \<^verbatim>\<open>utcoffset\<close> is the same number of seconds for every datetime.\<close>

definition fixed_offset :: "int \<Rightarrow> tzinfo" where
  "fixed_offset s = TzInfo (\<lambda>dt. Inr (Some (new_delta 0 s 0)))"

text \<open>
  A \<^verbatim>\<open>tzinfo\<close> with daylight saving time: one hour ahead of UTC from April to October, on
  UTC for the rest of the year.
\<close>

definition summer_time :: tzinfo where
  "summer_time =
     TzInfo (\<lambda>dt. Inr (Some (new_delta 0 (if 4 \<le> month dt \<and> month dt \<le> 10 then 3600 else 0) 0)))"

section \<open>Facts about the model\<close>

lemma digit_char_inj: "a < 10 \<Longrightarrow> b < 10 \<Longrightarrow> digit_char a = digit_char b \<Longrightarrow> a = b"
proof -
  assume a: "a < 10" and b: "b < 10" and eq: "digit_char a = digit_char b"
  have "distinct ''0123456789''" by simp
  moreover have "a < length ''0123456789''" "b < length ''0123456789''" using a b by simp_all
  ultimately have "(''0123456789'' ! a = ''0123456789'' ! b) = (a = b)"
    by (rule nth_eq_iff_index_eq)
  with eq show ?thesis by (simp only: digit_char_def)
qed

lemma digit_char_not_minus: "d < 10 \<Longrightarrow> digit_char d \<noteq> CHR ''-''"
proof
  assume d: "d < 10" and e: "digit_char d = CHR ''-''"
  from d have "''0123456789'' ! d \<in> set ''0123456789''" by (intro nth_mem) simp
  with e show False by (simp add: digit_char_def)
qed

lemma str_nat_not_Nil: "str_nat n \<noteq> []"
  by (subst str_nat.simps) simp

lemma str_nat_digits: "set (str_nat n) \<subseteq> digit_char ` {..<10}"
proof (induction n rule: str_nat.induct)
  case (1 n)
  show ?case
  proof (cases "n < 10")
    case True
    then show ?thesis by (subst str_nat.simps) simp
  next
    case False
    with 1 have "set (str_nat (n div 10)) \<subseteq> digit_char ` {..<10}" by simp
    moreover have "n mod 10 < 10" by simp
    ultimately show ?thesis using False by (subst str_nat.simps) auto
  qed
qed

lemma str_nat_inj: "str_nat n = str_nat m \<Longrightarrow> n = m"
proof (induction n arbitrary: m rule: str_nat.induct)
  case (1 n)
  show ?case
  proof (cases "n < 10")
    case True
    then have n: "str_nat n = [digit_char n]" by (subst str_nat.simps) simp
    show ?thesis
    proof (cases "m < 10")
      case True
      then have "str_nat m = [digit_char m]" by (subst str_nat.simps) simp
      with n "1.prems" \<open>n < 10\<close> True show ?thesis by (auto dest: digit_char_inj)
    next
      case False
      then have "str_nat m = str_nat (m div 10) @ [digit_char (m mod 10)]"
        by (subst str_nat.simps) simp
      with n "1.prems" str_nat_not_Nil [of "m div 10"] show ?thesis
        by (cases "str_nat (m div 10)") auto
    qed
  next
    case False
    then have n: "str_nat n = str_nat (n div 10) @ [digit_char (n mod 10)]"
      by (subst str_nat.simps) simp
    show ?thesis
    proof (cases "m < 10")
      case True
      then have "str_nat m = [digit_char m]" by (subst str_nat.simps) simp
      with n "1.prems" str_nat_not_Nil [of "n div 10"] show ?thesis
        by (cases "str_nat (n div 10)") auto
    next
      case m: False
      then have "str_nat m = str_nat (m div 10) @ [digit_char (m mod 10)]"
        by (subst str_nat.simps) simp
      with n "1.prems" have eq: "str_nat (n div 10) = str_nat (m div 10)"
        and dg: "digit_char (n mod 10) = digit_char (m mod 10)" by auto
      from "1.IH" [OF False eq] have "n div 10 = m div 10" .
      moreover have "n mod 10 = m mod 10" by (rule digit_char_inj [OF _ _ dg]) simp_all
      ultimately show ?thesis by (metis div_mult_mod_eq)
    qed
  qed
qed

lemma str_int_inj: "str_int i = str_int j \<Longrightarrow> i = j"
proof -
  assume eq: "str_int i = str_int j"
  have nm: "str_nat a \<noteq> CHR ''-'' # s" for a s
  proof
    assume "str_nat a = CHR ''-'' # s"
    then have "CHR ''-'' \<in> set (str_nat a)" by simp
    with str_nat_digits [of a] obtain d where "d < 10" "digit_char d = CHR ''-''" by auto
    then show False using digit_char_not_minus by blast
  qed
  show ?thesis
  proof (cases "i < 0")
    case True
    show ?thesis
    proof (cases "j < 0")
      case j: True
      with True eq have "nat (- i) = nat (- j)" by (auto simp: str_int_def dest: str_nat_inj)
      with True j show ?thesis by simp
    next
      case False
      with True eq nm [of "nat j" "str_nat (nat (- i))"] show ?thesis by (simp add: str_int_def)
    qed
  next
    case False
    show ?thesis
    proof (cases "j < 0")
      case True
      with False eq nm [of "nat i" "str_nat (nat (- j))"] show ?thesis by (simp add: str_int_def)
    next
      case j: False
      with False eq have "nat i = nat j" by (auto simp: str_int_def dest: str_nat_inj)
      with False j show ?thesis by simp
    qed
  qed
qed

lemma str_int_eq_iff [simp]: "str_int i = str_int j \<longleftrightarrow> i = j"
  by (auto dest: str_int_inj)

lemma py_format_placeholder [simp]: "py_format '':{}'' a = '':'' @ a"
  by simp

lemma py_format_token [simp]: "py_format ''token({})'' a = ''token('' @ a @ '')''"
  by simp

lemma py_format_Min [simp]: "py_format MinTimeUUID_format_string a = ''MinTimeUUID(:'' @ a @ '')''"
  by (simp add: MinTimeUUID_format_string_def)

lemma py_format_Max [simp]: "py_format MaxTimeUUID_format_string a = ''MaxTimeUUID(:'' @ a @ '')''"
  by (simp add: MaxTimeUUID_format_string_def)

lemma py_format_QueryValue [simp]: "py_format QueryValue_format_string a = '':'' @ a"
  by (simp add: QueryValue_format_string_def)

lemma Token_update_loop_no_id: "snd (Token_update_loop None i ps ctx) = ctx"
  by (cases ps) (auto split: sum.splits)

lemma Token_update_loop_frame:
  "key \<notin> (\<lambda>j. str_int (c + int j)) ` {i..<i + length ps} \<Longrightarrow>
   snd (Token_update_loop (Some c) i ps ctx) key = ctx key"
proof (induction ps arbitrary: i ctx)
  case Nil
  then show ?case by simp
next
  case (Cons p ps)
  obtain col v where p: "p = (col, v)" by (cases p)
  show ?case
  proof (cases "to_database col v")
    case (Inl e)
    with p show ?thesis by simp
  next
    case (Inr s)
    from Cons.prems have here: "key \<noteq> str_int (c + int i)" by auto
    from Cons.prems have "key \<notin> (\<lambda>j. str_int (c + int j)) ` {Suc i..<Suc i + length ps}"
      by auto
    from Cons.IH [OF this] have
      "snd (Token_update_loop (Some c) (Suc i) ps (ctx(str_int (c + int i) \<mapsto> s))) key =
       (ctx(str_int (c + int i) \<mapsto> s)) key" .
    with here p Inr show ?thesis by simp
  qed
qed

lemma Token_update_loop_returns:
  "\<forall>j<length ps. to_database (fst (ps ! j)) (snd (ps ! j)) = Inr (stored (i + j)) \<Longrightarrow>
   fst (Token_update_loop (Some c) i ps ctx) = None"
proof (induction ps arbitrary: i ctx)
  case Nil
  then show ?case by simp
next
  case (Cons p ps)
  obtain col v where p: "p = (col, v)" by (cases p)
  from Cons.prems have "to_database (fst ((p # ps) ! 0)) (snd ((p # ps) ! 0)) = Inr (stored (i + 0))"
    by blast
  with p have first: "to_database col v = Inr (stored i)" by simp
  have "\<forall>j<length ps. to_database (fst (ps ! j)) (snd (ps ! j)) = Inr (stored (Suc i + j))"
  proof (intro allI impI)
    fix j assume "j < length ps"
    then have "Suc j < length (p # ps)" by simp
    with Cons.prems have
      "to_database (fst ((p # ps) ! Suc j)) (snd ((p # ps) ! Suc j)) = Inr (stored (i + Suc j))"
      by blast
    then show "to_database (fst (ps ! j)) (snd (ps ! j)) = Inr (stored (Suc i + j))" by simp
  qed
  from Cons.IH [OF this] first p show ?case by simp
qed

lemma Token_update_loop_writes:
  "\<forall>j<length ps. to_database (fst (ps ! j)) (snd (ps ! j)) = Inr (stored (i + j)) \<Longrightarrow>
   j < length ps \<Longrightarrow>
   snd (Token_update_loop (Some c) i ps ctx) (str_int (c + int (i + j))) = Some (stored (i + j))"
proof (induction ps arbitrary: i j ctx)
  case Nil
  then show ?case by simp
next
  case (Cons p ps)
  obtain col v where p: "p = (col, v)" by (cases p)
  from Cons.prems(1) have "to_database (fst ((p # ps) ! 0)) (snd ((p # ps) ! 0)) = Inr (stored (i + 0))"
    by blast
  with p have first: "to_database col v = Inr (stored i)" by simp
  have rest: "\<forall>j<length ps. to_database (fst (ps ! j)) (snd (ps ! j)) = Inr (stored (Suc i + j))"
  proof (intro allI impI)
    fix j assume "j < length ps"
    then have "Suc j < length (p # ps)" by simp
    with Cons.prems(1) have
      "to_database (fst ((p # ps) ! Suc j)) (snd ((p # ps) ! Suc j)) = Inr (stored (i + Suc j))"
      by blast
    then show "to_database (fst (ps ! j)) (snd (ps ! j)) = Inr (stored (Suc i + j))" by simp
  qed
  let ?ctx = "ctx(str_int (c + int i) \<mapsto> stored i)"
  have step: "Token_update_loop (Some c) i (p # ps) ctx = Token_update_loop (Some c) (Suc i) ps ?ctx"
    using p first by simp
  show ?case
  proof (cases j)
    case 0
    have "str_int (c + int i) \<notin> (\<lambda>j. str_int (c + int j)) ` {Suc i..<Suc i + length ps}"
      by auto
    from Token_update_loop_frame [OF this]
    have "snd (Token_update_loop (Some c) (Suc i) ps ?ctx) (str_int (c + int i)) = Some (stored i)"
      by simp
    with step 0 show ?thesis by simp
  next
    case (Suc j')
    with Cons.prems(2) have "j' < length ps" by simp
    from Cons.IH [OF rest this] have
      "snd (Token_update_loop (Some c) (Suc i) ps ?ctx) (str_int (c + int (Suc i + j'))) =
       Some (stored (Suc i + j'))" .
    with step Suc show ?thesis by simp
  qed
qed

lemma str_int_digits:
  "str_int 0 = ''0''" "str_int 1 = ''1''" "str_int 2 = ''2''" "str_int 3 = ''3''"
  "str_int 4 = ''4''" "str_int 5 = ''5''" "str_int 7 = ''7''"
  by code_simp+

lemma Token_update_context_frame:
  "key \<notin> (\<lambda>i. str_int (c + int i)) ` {..<length xs} \<Longrightarrow>
   snd (update_context (Token k xs (Some c) cols) ctx) key = ctx key"
proof (cases cols)
  case None
  then show ?thesis by simp
next
  case (Some cs)
  assume "key \<notin> (\<lambda>i. str_int (c + int i)) ` {..<length xs}"
  then have "key \<notin> (\<lambda>j. str_int (c + int j)) ` {0..<0 + length (zip cs xs)}" by auto
  from Token_update_loop_frame [OF this] Some show ?thesis by simp
qed

lemma Token_update_context_zip:
  assumes "\<forall>i<min (length cs) (length xs). to_database (cs ! i) (xs ! i) = Inr (stored i)"
  shows "fst (update_context (Token k xs (Some c) (Some cs)) ctx) = None"
    and "i < min (length cs) (length xs) \<Longrightarrow>
         snd (update_context (Token k xs (Some c) (Some cs)) ctx) (str_int (c + int i)) =
         Some (stored i)"
proof -
  from assms have ser:
    "\<forall>j<length (zip cs xs). to_database (fst (zip cs xs ! j)) (snd (zip cs xs ! j)) =
       Inr (stored (0 + j))"
    by simp
  from Token_update_loop_returns [OF ser]
  show "fst (update_context (Token k xs (Some c) (Some cs)) ctx) = None" by simp
  assume "i < min (length cs) (length xs)"
  then have "i < length (zip cs xs)" by simp
  from Token_update_loop_writes [OF ser this, of c ctx]
  show "snd (update_context (Token k xs (Some c) (Some cs)) ctx) (str_int (c + int i)) =
        Some (stored i)" by simp
qed

lemma Token_unicode:
  "unicode (Token k xs (Some c) cols) =
   Inr (''token('' @ py_join '', '' (map (\<lambda>i. '':'' @ str_int (c + int i)) [0..<length xs]) @ '')'')"
  by simp

lemma Token_init_cases:
  "Token_init values =
     (if length values = 1 \<and> isinstance_list_tuple (hd values)
      then (case hd values of PSeq k xs \<Rightarrow> Token k xs None None)
      else Token PyTuple values None None)"
  by (induction "values" rule: Token_init.induct) simp_all



text \<open>
  A component that is itself a list is outside the scalar components a token is meant for:
  passed alone and variadically, it is unwrapped and its elements become the items.
\<close>

lemma Token_init_nested_sequence:
  "token_items (Token_init [PSeq PyList [PSeq PyList [PInt 1, PInt 2]]]) =
     [PSeq PyList [PInt 1, PInt 2]]
   \<and> token_items (Token_init [PSeq PyList [PInt 1, PInt 2]]) = [PInt 1, PInt 2]"
  by simp

lemma update_context_Token_kind:
  "update_context (Token k xs cid cols) ctx = update_context (Token k' xs cid cols) ctx"
  by simp

subsection \<open>Rounding to binary64\<close>

lemma flog2_bounds:
  assumes "0 < q"
  shows "2 powi flog2 q \<le> q \<and> q < 2 powi (flog2 q + 1)"
proof -
  obtain a b where ab: "quotient_of q = (a, b)" by (cases "quotient_of q")
  from quotient_of_denom_pos [OF ab] have b: "0 < b" .
  from quotient_of_div [OF ab] have q: "q = of_int a / of_int b" .
  from assms q b have a: "0 < a" by (simp add: zero_less_divide_iff)
  define la lb where "la = bitlen a" and "lb = bitlen b"
  from bitlen_bounds [OF a] have a1: "2 ^ nat (la - 1) \<le> a" and a2: "a < 2 ^ nat la"
    by (simp_all add: la_def)
  from bitlen_bounds [OF b] have b1: "2 ^ nat (lb - 1) \<le> b" and b2: "b < 2 ^ nat lb"
    by (simp_all add: lb_def)
  have la: "1 \<le> la"
  proof (rule ccontr)
    assume "\<not> 1 \<le> la"
    then have "nat la = 0" by simp
    with a2 a show False by simp
  qed
  have lb: "1 \<le> lb"
  proof (rule ccontr)
    assume "\<not> 1 \<le> lb"
    then have "nat lb = 0" by simp
    with b2 b show False by simp
  qed
  have A1: "(2::rat) powi (la - 1) \<le> of_int a"
  proof -
    have "(2::rat) powi (la - 1) = of_int (2 ^ nat (la - 1))"
      using la by (simp add: power_int_nonneg_exp)
    also have "\<dots> \<le> of_int a" using a1 by (simp only: of_int_le_iff)
    finally show ?thesis .
  qed
  have A2: "of_int a < (2::rat) powi la"
  proof -
    have "(of_int a :: rat) < of_int (2 ^ nat la)" using a2 by (simp only: of_int_less_iff)
    also have "\<dots> = 2 powi la" using la by (simp add: power_int_nonneg_exp)
    finally show ?thesis .
  qed
  have B1: "(2::rat) powi (lb - 1) \<le> of_int b"
  proof -
    have "(2::rat) powi (lb - 1) = of_int (2 ^ nat (lb - 1))"
      using lb by (simp add: power_int_nonneg_exp)
    also have "\<dots> \<le> of_int b" using b1 by (simp only: of_int_le_iff)
    finally show ?thesis .
  qed
  have B2: "of_int b < (2::rat) powi lb"
  proof -
    have "(of_int b :: rat) < of_int (2 ^ nat lb)" using b2 by (simp only: of_int_less_iff)
    also have "\<dots> = 2 powi lb" using lb by (simp add: power_int_nonneg_exp)
    finally show ?thesis .
  qed
  have up: "q < 2 powi (la - lb + 1)"
  proof -
    have "of_int a / of_int b < (2::rat) powi la / 2 powi (lb - 1)"
      by (rule frac_less) (use a A2 B1 in simp_all)
    also have "\<dots> = 2 powi (la - (lb - 1))" by (simp add: power_int_diff)
    finally show ?thesis by (simp add: q algebra_simps)
  qed
  have lo: "2 powi (la - lb - 1) < q"
  proof -
    have "(2::rat) powi (la - 1) / 2 powi lb < of_int a / of_int b"
      by (rule frac_less2) (use b A1 B2 in simp_all)
    moreover have "(2::rat) powi (la - 1) / 2 powi lb = 2 powi (la - 1 - lb)"
      by (simp add: power_int_diff)
    ultimately show ?thesis by (simp add: q algebra_simps)
  qed
  show ?thesis
  proof (cases "2 powi (la - lb) \<le> q")
    case True
    then have "flog2 q = la - lb" by (simp add: flog2_def ab la_def lb_def)
    with True up show ?thesis by simp
  next
    case False
    then have "flog2 q = la - lb - 1" by (simp add: flog2_def ab la_def lb_def)
    with False lo show ?thesis by simp
  qed
qed

lemma two_powi_less_cancel: "(2::rat) powi a < 2 powi b \<Longrightarrow> a < b"
proof (rule ccontr)
  assume lt: "(2::rat) powi a < 2 powi b" and "\<not> a < b"
  then have "b \<le> a" by simp
  then have "(2::rat) powi b \<le> 2 powi a" by (rule power_int_increasing) simp
  with lt show False by simp
qed

lemma flog2_unique:
  assumes "2 powi e \<le> q" and "q < 2 powi (e + 1)"
  shows "flog2 q = e"
proof -
  have pos: "0 < q" using assms(1) by (rule less_le_trans [rotated]) simp
  from flog2_bounds [OF pos] have f1: "2 powi flog2 q \<le> q" and f2: "q < 2 powi (flog2 q + 1)"
    by simp_all
  have "(2::rat) powi e < 2 powi (flog2 q + 1)" using assms(1) f2 by simp
  then have "e < flog2 q + 1" by (rule two_powi_less_cancel)
  moreover have "(2::rat) powi flog2 q < 2 powi (e + 1)" using assms(2) f1 by simp
  then have "flog2 q < e + 1" by (rule two_powi_less_cancel)
  ultimately show ?thesis by simp
qed

text \<open>
  The double nearest to 1.001 is \<^verbatim>\<open>0x1.004189374bc6ap+0\<close>, below 1.001; its product with 1000
  rounds to the double just below 1001.
\<close>

lemma fl64_1001:
  "fl64 (1001 / 1000) = 2254051613498933 / 2251799813685248"
  "fl64 (fl64 (1001 / 1000) * 1000) = 8804889115230207 / 8796093022208"
  "long (fl64 (fl64 (1001 / 1000) * 1000)) = 1000"
  by code_simp+

lemma round_half_even_of_int [simp]: "round_half_even (of_int n) = n"
  by (simp add: round_half_even_def)

lemma fl64_exact:
  fixes m k :: int
  assumes m: "\<bar>m\<bar> < 2 ^ 53"
  shows "fl64 (of_int m * 2 powi k) = of_int m * 2 powi k"
proof (cases "m = 0")
  case True
  then show ?thesis by (simp add: fl64_def)
next
  case False
  define q :: rat where "q = of_int m * 2 powi k"
  have q0: "q \<noteq> 0" using False by (simp add: q_def)
  have aq: "\<bar>q\<bar> = of_int \<bar>m\<bar> * 2 powi k" by (simp add: q_def abs_mult)
  have pos: "0 < \<bar>q\<bar>" using q0 by simp
  define e where "e = flog2 \<bar>q\<bar>"
  from flog2_bounds [OF pos] have e1: "2 powi e \<le> \<bar>q\<bar>" by (simp add: e_def)
  have "(of_int \<bar>m\<bar> :: rat) < of_int (2 ^ 53)" using m by (simp only: of_int_less_iff)
  then have "(of_int \<bar>m\<bar> :: rat) * 2 powi k < of_int (2 ^ 53) * 2 powi k"
    by (rule mult_strict_right_mono) simp
  also have "(of_int (2 ^ 53) :: rat) * 2 powi k = 2 powi (53 + k)"
    by (simp add: power_int_add)
  finally have "\<bar>q\<bar> < 2 powi (53 + k)" by (simp only: aq)
  with e1 have "(2::rat) powi e < 2 powi (53 + k)" by simp
  then have ek: "e < 53 + k" by (rule two_powi_less_cancel)
  define j where "j = nat (k - e + 52)"
  from ek have j: "k - (e - 52) = int j" by (simp add: j_def)
  have "\<bar>q\<bar> / 2 powi (e - 52) = of_int \<bar>m\<bar> * (2 powi k / 2 powi (e - 52))"
    by (simp add: aq)
  also have "(2::rat) powi k / 2 powi (e - 52) = 2 powi (k - (e - 52))"
    by (rule power_int_diff [symmetric]) simp
  also have "\<dots> = 2 ^ j" by (simp only: j power_int_of_nat)
  finally have scaled: "\<bar>q\<bar> / 2 powi (e - 52) = of_int (\<bar>m\<bar> * 2 ^ j)" by simp
  have "fl64 q = sgn q * of_int (round_half_even (\<bar>q\<bar> / 2 powi (e - 52))) * 2 powi (e - 52)"
    using q0 by (simp add: fl64_def Let_def e_def)
  also have "\<dots> = sgn q * (\<bar>q\<bar> / 2 powi (e - 52)) * 2 powi (e - 52)"
    by (simp only: scaled round_half_even_of_int)
  also have "\<dots> = sgn q * \<bar>q\<bar>" by simp
  also have "\<dots> = q" by (simp add: sgn_mult_abs)
  finally show ?thesis by (simp only: q_def)
qed

lemma fl64_of_int:
  "\<bar>n\<bar> < 2 ^ 53 \<Longrightarrow> fl64 (of_int n) = of_int n"
  using fl64_exact [of n 0] by simp

lemma round_half_even_bounds: "\<lfloor>x\<rfloor> \<le> round_half_even x \<and> round_half_even x \<le> \<lfloor>x\<rfloor> + 1"
  by (simp add: round_half_even_def Let_def)

lemma fl64_pos_representable:
  assumes pos: "0 < q"
  shows "\<exists>m k. \<bar>m\<bar> < 2 ^ 53 \<and> of_int (round_half_even (q / 2 powi (flog2 q - 52))) * 2 powi (flog2 q - 52)
            = (of_int m :: rat) * 2 powi k"
proof -
  define e where "e = flog2 q"
  define x where "x = q / 2 powi (e - 52)"
  define r where "r = round_half_even x"
  from flog2_bounds [OF pos] have e1: "2 powi e \<le> q" and e2: "q < 2 powi (e + 1)"
    by (simp_all add: e_def)
  have "x < 2 powi (e + 1) / 2 powi (e - 52)"
    unfolding x_def using e2 by (simp add: divide_strict_right_mono)
  also have "\<dots> = 2 powi (e + 1 - (e - 52))" by (rule power_int_diff [symmetric]) simp
  also have "\<dots> = of_int (2 ^ 53)" by simp
  finally have "\<lfloor>x\<rfloor> < 2 ^ 53" by (simp only: floor_less_iff)
  with round_half_even_bounds [of x] have r2: "r \<le> 2 ^ 53" unfolding r_def by linarith
  have "2 powi e / 2 powi (e - 52) \<le> x"
    unfolding x_def using e1 by (simp add: divide_right_mono)
  moreover have "(2::rat) powi e / 2 powi (e - 52) = 2 powi (e - (e - 52))"
    by (rule power_int_diff [symmetric]) simp
  ultimately have "of_int (2 ^ 52) \<le> x" by simp
  then have "2 ^ 52 \<le> \<lfloor>x\<rfloor>" by (simp only: le_floor_iff)
  with round_half_even_bounds [of x] have r1: "2 ^ 52 \<le> r" unfolding r_def by linarith
  show ?thesis
  proof (cases "r = 2 ^ 53")
    case True
    have "(of_int r :: rat) * 2 powi (e - 52) = of_int (2 ^ 52) * (2 * 2 powi (e - 52))"
      by (simp add: True)
    also have "(2::rat) * 2 powi (e - 52) = 2 powi (1 + (e - 52))"
    proof -
      have "(2::rat) powi (1 + (e - 52)) = 2 powi 1 * 2 powi (e - 52)"
        by (rule power_int_add) simp
      then show ?thesis by simp
    qed
    finally have "(of_int r :: rat) * 2 powi (e - 52) = of_int (2 ^ 52) * 2 powi (1 + (e - 52))" .
    moreover have "\<bar>2 ^ 52 :: int\<bar> < 2 ^ 53" by simp
    ultimately show ?thesis unfolding r_def x_def e_def by blast
  next
    case False
    with r1 r2 have "\<bar>r\<bar> < 2 ^ 53" by simp
    then show ?thesis unfolding r_def x_def e_def by blast
  qed
qed

lemma fl64_representable: "\<exists>m k. \<bar>m\<bar> < 2 ^ 53 \<and> fl64 q = (of_int m :: rat) * 2 powi k"
proof -
  consider "q = 0" | "0 < q" | "q < 0" by linarith
  then show ?thesis
  proof cases
    case 1
    have "\<bar>0 :: int\<bar> < 2 ^ 53 \<and> fl64 q = (of_int 0 :: rat) * 2 powi 0" by (simp add: 1 fl64_def)
    then show ?thesis by blast
  next
    case 2
    from fl64_pos_representable [OF 2] obtain m k where
      "\<bar>m\<bar> < 2 ^ 53" "of_int (round_half_even (q / 2 powi (flog2 q - 52))) * 2 powi (flog2 q - 52)
            = (of_int m :: rat) * 2 powi k" by blast
    moreover have "fl64 q = of_int (round_half_even (q / 2 powi (flog2 q - 52))) * 2 powi (flog2 q - 52)"
      using 2 by (simp add: fl64_def Let_def)
    ultimately show ?thesis by metis
  next
    case 3
    then have p: "0 < - q" by simp
    from fl64_pos_representable [OF p] obtain m k where mk:
      "\<bar>m\<bar> < 2 ^ 53" "of_int (round_half_even (- q / 2 powi (flog2 (- q) - 52))) * 2 powi (flog2 (- q) - 52)
            = (of_int m :: rat) * 2 powi k" by blast
    have "fl64 q = - (of_int (round_half_even (- q / 2 powi (flog2 (- q) - 52))) * 2 powi (flog2 (- q) - 52))"
      using 3 by (simp add: fl64_def Let_def)
    with mk(2) have "fl64 q = (of_int (- m) :: rat) * 2 powi k" by simp
    moreover from mk(1) have "\<bar>- m\<bar> < 2 ^ 53" by simp
    ultimately show ?thesis by blast
  qed
qed

lemma fl64_idem [simp]: "fl64 (fl64 q) = fl64 q"
proof -
  from fl64_representable [of q] obtain m k where "\<bar>m\<bar> < 2 ^ 53" "fl64 q = (of_int m :: rat) * 2 powi k"
    by blast
  then show ?thesis by (simp add: fl64_exact)
qed

lemma float_sub_zero: "float_sub (fl64 x) 0 = fl64 x"
  by (simp add: float_sub_def)

lemma long_of_int [simp]: "long (of_int n) = n"
  by (simp add: long_def)

subsection \<open>Timestamps\<close>

lemma new_delta_microseconds:
  "timedelta_microseconds (new_delta d s us) = (d * 86400 + s) * 1000000 + us"
proof -
  define s1 where "s1 = s + us div 1000000"
  have a: "us div 1000000 * 1000000 + us mod 1000000 = us" by simp
  have b: "s1 div 86400 * 86400 + s1 mod 86400 = s1" by simp
  have "timedelta_microseconds (new_delta d s us) =
      ((d + s1 div 86400) * 86400 + s1 mod 86400) * 1000000 + us mod 1000000"
    by (simp add: timedelta_microseconds_def new_delta_def Let_def s1_def)
  also have "\<dots> = (d * 86400 + (s1 div 86400 * 86400 + s1 mod 86400)) * 1000000 + us mod 1000000"
    by (simp add: algebra_simps)
  also have "\<dots> = (d * 86400 + s1) * 1000000 + us mod 1000000" by (simp only: b)
  also have "\<dots> = (d * 86400 + s) * 1000000 + (us div 1000000 * 1000000 + us mod 1000000)"
    by (simp add: s1_def algebra_simps)
  also have "\<dots> = (d * 86400 + s) * 1000000 + us" by (simp only: a)
  finally show ?thesis .
qed

lemma datetime_sub_microseconds:
  "timedelta_microseconds (datetime_sub l r) = wall_microseconds l - wall_microseconds r"
  by (simp add: datetime_sub_def new_delta_microseconds wall_microseconds_def algebra_simps)

lemma total_seconds_microseconds:
  "total_seconds td = int_true_divide (timedelta_microseconds td) 1000000"
  by (simp add: total_seconds_def timedelta_microseconds_def)

lemma wall_microseconds_epoch:
  "wall_microseconds (datetime_of_date 1970 1 1 tz) = 62135683200000000"
  by (simp add: wall_microseconds_def datetime_of_date_def ymd_to_ord_def days_before_year_def
      days_before_month_def days_before_month_table_def)

lemma microseconds_since_epoch_eq:
  "microseconds_since_epoch t = wall_microseconds t - 62135683200000000"
  by (simp add: microseconds_since_epoch_def epoch_of_def wall_microseconds_epoch)

lemma total_seconds_datetime_sub:
  "total_seconds (datetime_sub t (datetime_of_date 1970 1 1 tz)) =
   int_true_divide (microseconds_since_epoch t) 1000000"
  by (simp add: total_seconds_microseconds datetime_sub_microseconds microseconds_since_epoch_eq
      wall_microseconds_epoch)

lemma tzinfo_datetime_of_date [simp]: "tzinfo (datetime_of_date y m d tz) = tz"
  by (simp add: datetime_of_date_def)

lemma MinTimeUUID_update_context_eq:
  "offset_seconds t = Some off \<Longrightarrow>
   MinTimeUUID_update_context t cid ctx =
     (None, ctx(str_context_id cid \<mapsto> PInt (scale_then_truncate t off)))"
  by (auto simp: MinTimeUUID_update_context_def offset_seconds_def Let_def epoch_of_def
      scale_then_truncate_def total_seconds_datetime_sub split: option.splits sum.splits)

lemma MaxTimeUUID_update_context_eq:
  "offset_seconds t = Some off \<Longrightarrow>
   MaxTimeUUID_update_context t cid ctx =
     (None, ctx(str_context_id cid \<mapsto> PInt (scale_then_truncate t off)))"
  by (auto simp: MaxTimeUUID_update_context_def offset_seconds_def Let_def epoch_of_def
      scale_then_truncate_def total_seconds_datetime_sub split: option.splits sum.splits)

lemma scale_then_truncate_naive:
  "scale_then_truncate t 0 = truncated_milliseconds t"
  by (simp add: scale_then_truncate_def truncated_milliseconds_def int_true_divide_def float_sub_zero)

lemma update_context_Min_eq:
  "offset_seconds t = Some off \<Longrightarrow>
   update_context (MinTimeUUID t cid) ctx =
     (None, ctx(str_context_id cid \<mapsto> PInt (scale_then_truncate t off)))"
  by (simp add: MinTimeUUID_update_context_eq)

lemma update_context_Max_eq:
  "offset_seconds t = Some off \<Longrightarrow>
   update_context (MaxTimeUUID t cid) ctx =
     (None, ctx(str_context_id cid \<mapsto> PInt (scale_then_truncate t off)))"
  by (simp add: MaxTimeUUID_update_context_eq)

lemma offset_seconds_naive: "tzinfo t = None \<Longrightarrow> offset_seconds t = Some 0"
  by (simp add: offset_seconds_def)

lemma total_seconds_whole:
  "\<bar>s\<bar> < 2 ^ 53 \<Longrightarrow> total_seconds (new_delta 0 s 0) = of_int s"
proof -
  assume s: "\<bar>s\<bar> < 2 ^ 53"
  have "timedelta_microseconds (new_delta 0 s 0) = s * 1000000"
    by (simp add: new_delta_microseconds)
  then have "total_seconds (new_delta 0 s 0) = fl64 (of_int s)"
    by (simp add: total_seconds_microseconds int_true_divide_def)
  with s show ?thesis by (simp add: fl64_of_int)
qed

lemma offset_seconds_fixed:
  "\<bar>s\<bar> < 2 ^ 53 \<Longrightarrow> tzinfo t = Some (fixed_offset s) \<Longrightarrow> offset_seconds t = Some (of_int s)"
  by (simp add: offset_seconds_def fixed_offset_def total_seconds_whole)


lemma days_before_month_bounds: "0 \<le> days_before_month y m \<and> days_before_month y m \<le> 335"
proof (cases "1 \<le> m \<and> m \<le> 12")
  case False
  then show ?thesis by (auto simp: days_before_month_def)
next
  case True
  have "length days_before_month_table = 13" by (simp add: days_before_month_table_def)
  with True have "nat m < length days_before_month_table" by linarith
  then have "days_before_month_table ! nat m \<in> set days_before_month_table" by (rule nth_mem)
  then have "0 \<le> days_before_month_table ! nat m \<and> days_before_month_table ! nat m \<le> 334"
    by (auto simp: days_before_month_table_def)
  with True show ?thesis by (simp add: days_before_month_def)
qed

lemma days_in_month_bounds: "days_in_month y m \<le> 31"
proof (cases "1 \<le> m \<and> m \<le> 12")
  case False
  then show ?thesis by (auto simp: days_in_month_def)
next
  case True
  have "length days_in_month_table = 13" by (simp add: days_in_month_table_def)
  with True have "nat m < length days_in_month_table" by linarith
  then have "days_in_month_table ! nat m \<in> set days_in_month_table" by (rule nth_mem)
  then have "days_in_month_table ! nat m \<le> 31"
    by (auto simp: days_in_month_table_def)
  with True show ?thesis by (simp add: days_in_month_def)
qed

lemma days_before_year_bounds:
  "1 \<le> y \<Longrightarrow> y \<le> 9999 \<Longrightarrow> 0 \<le> days_before_year y \<and> days_before_year y \<le> 3660000"
  by (simp add: days_before_year_def Let_def)

lemma valid_datetime_wall_seconds:
  assumes "valid_datetime t"
  shows "0 \<le> ymd_to_ord (year t) (month t) (day t) * 86400 + hour t * 3600 + minute t * 60 + second t
     \<and> ymd_to_ord (year t) (month t) (day t) * 86400 + hour t * 3600 + minute t * 60 + second t
        \<le> 320000000000"
proof -
  from assms have y: "1 \<le> year t" "year t \<le> 9999"
    and d: "1 \<le> day t" "day t \<le> days_in_month (year t) (month t)"
    and h: "0 \<le> hour t" "hour t < 24" and m: "0 \<le> minute t" "minute t < 60"
    and s: "0 \<le> second t" "second t < 60"
    by (simp_all add: valid_datetime_def)
  from d days_in_month_bounds [of "year t" "month t"] have d': "day t \<le> 31" by simp
  from days_before_year_bounds [OF y] days_before_month_bounds [of "year t" "month t"] d(1) d'
  have "1 \<le> ymd_to_ord (year t) (month t) (day t)"
    and "ymd_to_ord (year t) (month t) (day t) \<le> 3660366"
    by (simp_all add: ymd_to_ord_def)
  with h m s show ?thesis by linarith
qed

lemma whole_second_since_epoch:
  assumes "valid_datetime t" and "microsecond t = 0"
  shows "\<exists>S. microseconds_since_epoch t = S * 1000000 \<and> \<bar>S\<bar> \<le> 320000000000"
proof -
  define W where
    "W = ymd_to_ord (year t) (month t) (day t) * 86400 + hour t * 3600 + minute t * 60 + second t"
  from valid_datetime_wall_seconds [OF assms(1)] have W: "0 \<le> W" "W \<le> 320000000000"
    by (simp_all add: W_def)
  have "microseconds_since_epoch t = (W - 62135683200) * 1000000"
    by (simp add: microseconds_since_epoch_eq wall_microseconds_def assms(2) W_def)
  moreover from W have "\<bar>W - 62135683200\<bar> \<le> 320000000000" by linarith
  ultimately show ?thesis by blast
qed

lemma fl64_of_int_small:
  "\<bar>n\<bar> \<le> 9000000000000000 \<Longrightarrow> fl64 (of_int n) = of_int n"
  by (rule fl64_of_int) simp

lemma exact_milliseconds:
  fixes S o' :: int
  assumes S: "\<bar>S\<bar> \<le> 320000000000" and o': "\<bar>o'\<bar> \<le> 86400"
  shows "long (float_mul (float_sub (int_true_divide (S * 1000000) 1000000) (of_int o')) 1000) =
         (S - o') * 1000"
proof -
  have "int_true_divide (S * 1000000) 1000000 = fl64 (of_int S)"
    by (simp add: int_true_divide_def)
  also have "\<dots> = of_int S" using S by (intro fl64_of_int_small) linarith
  finally have a: "int_true_divide (S * 1000000) 1000000 = of_int S" .
  have "float_sub (of_int S) (of_int o') = fl64 (of_int (S - o'))" by (simp add: float_sub_def)
  also have "\<dots> = of_int (S - o')" using S o' by (intro fl64_of_int_small) linarith
  finally have b: "float_sub (of_int S) (of_int o') = of_int (S - o')" .
  have "float_mul (of_int (S - o')) 1000 = fl64 (of_int ((S - o') * 1000))"
    by (simp add: float_mul_def)
  also have "\<dots> = of_int ((S - o') * 1000)"
  proof (rule fl64_of_int_small)
    from S o' have "\<bar>S - o'\<bar> \<le> 320000086400" by linarith
    then have "\<bar>S - o'\<bar> * 1000 \<le> 320000086400 * 1000" by (rule mult_right_mono) simp
    then show "\<bar>(S - o') * 1000\<bar> \<le> 9000000000000000" by (simp add: abs_mult)
  qed
  finally have c: "float_mul (of_int (S - o')) 1000 = of_int ((S - o') * 1000)" .
  show ?thesis by (simp only: a b c long_of_int)
qed

lemma whole_second_offset:
  assumes "microseconds off = 0" "- 1 \<le> days off" "days off \<le> 0" "0 \<le> seconds off"
    "seconds off < 86400"
  shows "\<exists>o'. timedelta_microseconds off = o' * 1000000 \<and> \<bar>o'\<bar> \<le> 86400
      \<and> total_seconds off = of_int o'"
proof -
  define o' where "o' = days off * 86400 + seconds off"
  from assms have b: "\<bar>o'\<bar> \<le> 86400" unfolding o'_def by linarith
  have us: "timedelta_microseconds off = o' * 1000000"
    by (simp add: timedelta_microseconds_def o'_def assms(1))
  then have "total_seconds off = fl64 (of_int o')"
    by (simp add: total_seconds_microseconds int_true_divide_def)
  also have "\<dots> = of_int o'" using b by (intro fl64_of_int_small) linarith
  finally show ?thesis using us b by blast
qed

lemma whole_second_milliseconds:
  assumes valid: "valid_datetime t" and whole: "microsecond t = 0"
    and steady: "steady_offset t" and us: "utc_microseconds t = Some us"
  shows "\<exists>off. offset_seconds t = Some off \<and> scale_then_truncate t off = us div 1000"
proof -
  from whole_second_since_epoch [OF valid whole] obtain S where
    S: "microseconds_since_epoch t = S * 1000000" "\<bar>S\<bar> \<le> 320000000000" by blast
  show ?thesis
  proof (cases "tzinfo t")
    case None
    with us S have "us = S * 1000000" by (simp add: utc_microseconds_def)
    moreover from exact_milliseconds [OF S(2), of 0]
    have "scale_then_truncate t 0 = S * 1000" by (simp add: scale_then_truncate_def S(1))
    moreover from None have "offset_seconds t = Some 0" by (rule offset_seconds_naive)
    ultimately show ?thesis by simp
  next
    case (Some tz)
    with steady obtain off where
      at_t: "utcoffset tz (wall_clock t) = Inr (Some off)"
      and at_epoch: "utcoffset tz (wall_clock (epoch_of t)) = Inr (Some off)"
      and off: "microseconds off = 0" "- 1 \<le> days off" "days off \<le> 0" "0 \<le> seconds off"
        "seconds off < 86400"
      by (auto simp: steady_offset_def split: sum.splits option.splits)
    from whole_second_offset [OF off] obtain o' where
      o': "timedelta_microseconds off = o' * 1000000" "\<bar>o'\<bar> \<le> 86400"
        "total_seconds off = of_int o'" by blast
    from Some at_t us S o' have "us = (S - o') * 1000000"
      by (simp add: utc_microseconds_def algebra_simps)
    moreover from exact_milliseconds [OF S(2) o'(2)]
    have "scale_then_truncate t (of_int o') = (S - o') * 1000"
      by (simp add: scale_then_truncate_def S(1))
    moreover from Some at_epoch o'(3) have "offset_seconds t = Some (of_int o')"
      by (simp add: offset_seconds_def)
    ultimately show ?thesis by simp
  qed
qed

lemma round_half_even_error: "\<bar>of_int (round_half_even x) - x\<bar> \<le> 1 / 2"
proof -
  define f where "f = \<lfloor>x\<rfloor>"
  define d where "d = x - of_int f"
  have d: "0 \<le> d" "d < 1" unfolding d_def f_def by linarith+
  have x: "x = of_int f + d" by (simp add: d_def)
  consider "d < 1 / 2" | "1 / 2 < d" | "d = 1 / 2" by linarith
  then show ?thesis
  proof cases
    case 1
    then have "round_half_even x = f" by (simp add: round_half_even_def Let_def f_def d_def)
    with 1 d x show ?thesis by simp
  next
    case 2
    then have "round_half_even x = f + 1" by (simp add: round_half_even_def Let_def f_def d_def)
    with 2 d x show ?thesis by simp
  next
    case 3
    then have "round_half_even x = f \<or> round_half_even x = f + 1"
      by (simp add: round_half_even_def Let_def f_def d_def)
    with 3 x show ?thesis by auto
  qed
qed

lemma fl64_error_pos:
  assumes pos: "0 < p"
  shows "\<bar>of_int (round_half_even (p / 2 powi (flog2 p - 52))) * 2 powi (flog2 p - 52) - p\<bar>
         \<le> p / 9007199254740992"
proof -
  define e where "e = flog2 p"
  define u :: rat where "u = 2 powi (e - 52)"
  define x where "x = p / u"
  define r where "r = round_half_even x"
  have u: "0 < u" by (simp add: u_def)
  from flog2_bounds [OF pos] have e1: "2 powi e \<le> p" by (simp add: e_def)
  have "(2::rat) powi e = 2 powi (e - 52) * 2 powi 52"
  proof -
    have "(2::rat) powi (e - 52 + 52) = 2 powi (e - 52) * 2 powi 52"
      by (rule power_int_add) simp
    then show ?thesis by simp
  qed
  then have ue: "2 powi e = u * 4503599627370496" by (simp add: u_def)
  have p: "p = x * u" using u by (simp add: x_def)
  have "of_int r * u - p = (of_int r - x) * u" by (simp add: p algebra_simps)
  then have "\<bar>of_int r * u - p\<bar> = \<bar>of_int r - x\<bar> * u" using u by (simp add: abs_mult)
  also have "\<dots> \<le> 1 / 2 * u"
    using round_half_even_error [of x] u unfolding r_def by (intro mult_right_mono) simp_all
  also have "\<dots> = u * 4503599627370496 / 9007199254740992" by simp
  also have "\<dots> \<le> p / 9007199254740992" using e1 ue by (simp add: divide_right_mono)
  finally show ?thesis by (simp only: r_def x_def u_def e_def)
qed

lemma fl64_error: "\<bar>fl64 q - q\<bar> \<le> \<bar>q\<bar> / 9007199254740992"
proof -
  consider "q = 0" | "0 < q" | "q < 0" by linarith
  then show ?thesis
  proof cases
    case 1
    then show ?thesis by (simp add: fl64_def)
  next
    case 2
    then have "fl64 q = of_int (round_half_even (q / 2 powi (flog2 q - 52))) * 2 powi (flog2 q - 52)"
      by (simp add: fl64_def Let_def)
    with fl64_error_pos [OF 2] 2 show ?thesis by simp
  next
    case 3
    then have p: "0 < - q" by simp
    from 3 have "fl64 q =
        - (of_int (round_half_even (- q / 2 powi (flog2 (- q) - 52))) * 2 powi (flog2 (- q) - 52))"
      by (simp add: fl64_def Let_def)
    then have "\<bar>fl64 q - q\<bar> =
        \<bar>of_int (round_half_even (- q / 2 powi (flog2 (- q) - 52))) * 2 powi (flog2 (- q) - 52) - (- q)\<bar>"
      by (simp add: abs_minus_commute algebra_simps)
    with fl64_error_pos [OF p] 3 show ?thesis by simp
  qed
qed

lemma milliseconds_error:
  fixes U o' :: int
  assumes U: "\<bar>U\<bar> \<le> 320000000000000000" and o': "\<bar>o'\<bar> \<le> 86400"
  shows "\<bar>float_mul (float_sub (int_true_divide U 1000000) (of_int o')) 1000
          - (of_int U / 1000 - of_int o' * 1000)\<bar> \<le> 1 / 4"
proof -
  define a :: rat where "a = of_int U / 1000000"
  define x1 where "x1 = fl64 a"
  define b where "b = x1 - of_int o'"
  define x2 where "x2 = fl64 b"
  define c where "c = x2 * 1000"
  define x3 where "x3 = fl64 c"
  have "\<bar>of_int U :: rat\<bar> \<le> 320000000000000000"
    using U by (metis of_int_abs of_int_le_iff of_int_numeral)
  then have a: "\<bar>a\<bar> \<le> 320000000000" by (simp add: a_def)
  have "\<bar>of_int o' :: rat\<bar> \<le> 86400"
    using o' by (metis of_int_abs of_int_le_iff of_int_numeral)
  then have o: "\<bar>of_int o' :: rat\<bar> \<le> 86400" .
  from fl64_error [of a] a have d1: "\<bar>x1 - a\<bar> \<le> 1 / 20000" unfolding x1_def by linarith
  from d1 a o have b: "\<bar>b\<bar> \<le> 330000000000" unfolding b_def by linarith
  from fl64_error [of b] b have d2: "\<bar>x2 - b\<bar> \<le> 1 / 20000" unfolding x2_def by linarith
  from d2 b have "\<bar>x2\<bar> \<le> 340000000000" by linarith
  then have c: "\<bar>c\<bar> \<le> 340000000000000" unfolding c_def by linarith
  from fl64_error [of c] c have d3: "\<bar>x3 - c\<bar> \<le> 1 / 20" unfolding x3_def by linarith
  define p where "p = x1 - a"
  define q where "q = x2 - b"
  define r where "r = x3 - c"
  define err where "err = x3 - (of_int U / 1000 - of_int o' * 1000)"
  have eq: "err = r + 1000 * q + 1000 * p"
    by (simp add: err_def c_def b_def a_def p_def q_def r_def)
  from d1 have l1: "- (1 / 20000) \<le> p" unfolding p_def by linarith
  from d1 have u1: "p \<le> 1 / 20000" unfolding p_def by linarith
  from d2 have l2: "- (1 / 20000) \<le> q" unfolding q_def by linarith
  from d2 have u2: "q \<le> 1 / 20000" unfolding q_def by linarith
  from d3 have l3: "- (1 / 20) \<le> r" unfolding r_def by linarith
  from d3 have u3: "r \<le> 1 / 20" unfolding r_def by linarith
  from eq l1 l2 l3 have lo: "- (1 / 4) \<le> err" by linarith
  from eq u1 u2 u3 have hi: "err \<le> 1 / 4" by linarith
  from lo hi have "\<bar>err\<bar> \<le> 1 / 4" by linarith
  then have "\<bar>x3 - (of_int U / 1000 - of_int o' * 1000)\<bar> \<le> 1 / 4"
    unfolding err_def .
  moreover have "float_mul (float_sub (int_true_divide U 1000000) (of_int o')) 1000 = x3"
    by (simp add: float_mul_def float_sub_def int_true_divide_def x3_def c_def x2_def b_def
        x1_def a_def)
  ultimately show ?thesis by simp
qed

lemma long_close: "\<bar>x - y\<bar> < 1 \<Longrightarrow> \<bar>long x - long y\<bar> \<le> 1"
  unfolding long_def by (auto split: if_splits) linarith+

lemma valid_datetime_since_epoch:
  assumes "valid_datetime t"
  shows "\<bar>microseconds_since_epoch t\<bar> \<le> 320000000000000000"
proof -
  define W where
    "W = ymd_to_ord (year t) (month t) (day t) * 86400 + hour t * 3600 + minute t * 60 + second t"
  from valid_datetime_wall_seconds [OF assms] have W: "0 \<le> W" "W \<le> 320000000000"
    by (simp_all add: W_def)
  from assms have us: "0 \<le> microsecond t" "microsecond t < 1000000"
    by (simp_all add: valid_datetime_def)
  have "microseconds_since_epoch t = W * 1000000 + microsecond t - 62135683200000000"
    by (simp add: microseconds_since_epoch_eq wall_microseconds_def W_def)
  with W us show ?thesis by linarith
qed

lemma steady_milliseconds_close:
  assumes valid: "valid_datetime t" and steady: "steady_offset t"
    and us: "utc_microseconds t = Some us"
  shows "\<exists>off. offset_seconds t = Some off \<and>
     \<bar>float_mul (float_sub (int_true_divide (microseconds_since_epoch t) 1000000) off) 1000
       - of_int us / 1000\<bar> \<le> 1 / 4"
proof -
  note U = valid_datetime_since_epoch [OF valid]
  show ?thesis
  proof (cases "tzinfo t")
    case None
    with us have "us = microseconds_since_epoch t" by (simp add: utc_microseconds_def)
    moreover from None have "offset_seconds t = Some (of_int 0)" by (simp add: offset_seconds_naive)
    moreover from milliseconds_error [OF U, of 0]
    have "\<bar>float_mul (float_sub (int_true_divide (microseconds_since_epoch t) 1000000) (of_int 0)) 1000
       - of_int (microseconds_since_epoch t) / 1000\<bar> \<le> 1 / 4" by simp
    ultimately show ?thesis by blast
  next
    case (Some tz)
    with steady obtain off where
      at_t: "utcoffset tz (wall_clock t) = Inr (Some off)"
      and at_epoch: "utcoffset tz (wall_clock (epoch_of t)) = Inr (Some off)"
      and off: "microseconds off = 0" "- 1 \<le> days off" "days off \<le> 0" "0 \<le> seconds off"
        "seconds off < 86400"
      by (auto simp: steady_offset_def split: sum.splits option.splits)
    from whole_second_offset [OF off] obtain o' where
      o': "timedelta_microseconds off = o' * 1000000" "\<bar>o'\<bar> \<le> 86400"
        "total_seconds off = of_int o'" by blast
    from Some at_t us o' have "us = microseconds_since_epoch t - o' * 1000000"
      by (simp add: utc_microseconds_def)
    then have eq: "(of_int us :: rat) / 1000 =
        of_int (microseconds_since_epoch t) / 1000 - of_int o' * 1000"
      by (simp add: diff_divide_distrib)
    from Some at_epoch o'(3) have os: "offset_seconds t = Some (of_int o')"
      by (simp add: offset_seconds_def)
    from milliseconds_error [OF U o'(2)] have
      "\<bar>float_mul (float_sub (int_true_divide (microseconds_since_epoch t) 1000000) (of_int o')) 1000
        - of_int us / 1000\<bar> \<le> 1 / 4"
      by (simp only: eq)
    with os show ?thesis by blast
  qed
qed

lemma same_instant_close:
  assumes "valid_datetime t1" "valid_datetime t2" "steady_offset t1" "steady_offset t2"
    and "same_instant t1 t2"
  shows "\<exists>off1 off2. offset_seconds t1 = Some off1 \<and> offset_seconds t2 = Some off2
     \<and> \<bar>scale_then_truncate t1 off1 - scale_then_truncate t2 off2\<bar> \<le> 1
     \<and> (microsecond t1 = 0 \<and> microsecond t2 = 0 \<longrightarrow>
          scale_then_truncate t1 off1 = scale_then_truncate t2 off2)"
proof -
  from assms(5) obtain us where us: "utc_microseconds t1 = Some us" "utc_microseconds t2 = Some us"
    by (cases "utc_microseconds t1") (auto simp: same_instant_def)
  from steady_milliseconds_close [OF assms(1) assms(3) us(1)] obtain off1 where
    off1: "offset_seconds t1 = Some off1"
    and c1: "\<bar>float_mul (float_sub (int_true_divide (microseconds_since_epoch t1) 1000000) off1) 1000
       - of_int us / 1000\<bar> \<le> 1 / 4" by blast
  from steady_milliseconds_close [OF assms(2) assms(4) us(2)] obtain off2 where
    off2: "offset_seconds t2 = Some off2"
    and c2: "\<bar>float_mul (float_sub (int_true_divide (microseconds_since_epoch t2) 1000000) off2) 1000
       - of_int us / 1000\<bar> \<le> 1 / 4" by blast
  from c1 c2 have
    "\<bar>float_mul (float_sub (int_true_divide (microseconds_since_epoch t1) 1000000) off1) 1000
      - float_mul (float_sub (int_true_divide (microseconds_since_epoch t2) 1000000) off2) 1000\<bar> < 1"
    by linarith
  then have close: "\<bar>scale_then_truncate t1 off1 - scale_then_truncate t2 off2\<bar> \<le> 1"
    unfolding scale_then_truncate_def by (rule long_close)
  have "scale_then_truncate t1 off1 = scale_then_truncate t2 off2"
    if whole: "microsecond t1 = 0" "microsecond t2 = 0"
  proof -
    from whole_second_milliseconds [OF assms(1) whole(1) assms(3) us(1)] off1
    have "scale_then_truncate t1 off1 = us div 1000" by auto
    moreover from whole_second_milliseconds [OF assms(2) whole(2) assms(4) us(2)] off2
    have "scale_then_truncate t2 off2 = us div 1000" by auto
    ultimately show ?thesis by simp
  qed
  with off1 off2 close show ?thesis by blast
qed

lemma offset_seconds_summer_time:
  "tzinfo t = Some summer_time \<Longrightarrow> offset_seconds t = Some 0"
  using total_seconds_whole [of 0]
  by (simp add: offset_seconds_def summer_time_def epoch_of_def wall_clock_def datetime_of_date_def)


section \<open>The claims\<close>

text \<open>
  Claim C1, as stated, fails: for the naive timestamp 1970-01-01T00:00:00.5 the code stores
  500, and truncating the seconds before the multiplication by 1000 gives 0.
\<close>
theorem truncate_then_scale_counterexample:
  "update_context
     (MinTimeUUID \<lparr>year = 1970, month = 1, day = 1, hour = 0, minute = 0, second = 0,
        microsecond = 500000, tzinfo = None\<rparr> (Some 0)) Map.empty =
     (None, [''0'' \<mapsto> PInt 500])
   \<and> offset_seconds \<lparr>year = 1970, month = 1, day = 1, hour = 0, minute = 0, second = 0,
        microsecond = 500000, tzinfo = None\<rparr> = Some 0
   \<and> truncate_then_scale \<lparr>year = 1970, month = 1, day = 1, hour = 0, minute = 0, second = 0,
        microsecond = 500000, tzinfo = None\<rparr> 0 = 0"
proof -
  let ?t = "\<lparr>year = 1970, month = 1, day = 1, hour = 0, minute = 0, second = 0,
        microsecond = 500000, tzinfo = None\<rparr>"
  have off: "offset_seconds ?t = Some 0" by (simp add: offset_seconds_naive)
  have code: "scale_then_truncate ?t 0 = 500" by code_simp
  have spec: "truncate_then_scale ?t 0 = 0" by code_simp
  from update_context_Min_eq [OF off, of "Some 0" Map.empty] off code spec
  show ?thesis by (simp add: str_int_digits)
qed

text \<open>
  Claim C1, amended.  When the offset of the epoch is available (the timestamp is naive, or
  \<^verbatim>\<open>utcoffset\<close> returns a timedelta for the epoch), \<^verbatim>\<open>update_context\<close> of both time
  functions returns normally and stores, under the text of the context id, the truncation
  toward zero of the floating-point product: seconds since the epoch (the microseconds
  divided by \<open>10\<^sup>6\<close>) less the offset, multiplied by 1000, and only then truncated.
\<close>
theorem time_uuid_update_context_milliseconds:
  assumes "offset_seconds t = Some off"
  shows "update_context (MinTimeUUID t (Some c)) ctx =
           (None, ctx(str_int c \<mapsto> PInt (scale_then_truncate t off)))
       \<and> update_context (MaxTimeUUID t (Some c)) ctx =
           (None, ctx(str_int c \<mapsto> PInt (scale_then_truncate t off)))"
  using update_context_Min_eq [OF assms, of "Some c" ctx]
    update_context_Max_eq [OF assms, of "Some c" ctx] by simp

theorem time_uuid_update_context_milliseconds_witness:
  "update_context
     (MinTimeUUID \<lparr>year = 1970, month = 1, day = 1, hour = 0, minute = 0, second = 1,
        microsecond = 0, tzinfo = Some (fixed_offset 0)\<rparr> (Some 0)) Map.empty =
     (None, [''0'' \<mapsto> PInt 1000])
   \<and> update_context
     (MaxTimeUUID \<lparr>year = 1970, month = 1, day = 1, hour = 0, minute = 0, second = 1,
        microsecond = 0, tzinfo = Some (fixed_offset 0)\<rparr> (Some 0)) Map.empty =
     (None, [''0'' \<mapsto> PInt 1000])"
proof -
  let ?t = "\<lparr>year = 1970, month = 1, day = 1, hour = 0, minute = 0, second = 1,
        microsecond = 0, tzinfo = Some (fixed_offset 0)\<rparr>"
  have off: "offset_seconds ?t = Some 0" using offset_seconds_fixed [of 0 ?t] by simp
  have code: "scale_then_truncate ?t 0 = 1000" by code_simp
  from time_uuid_update_context_milliseconds [OF off, of 0 Map.empty] code
  show ?thesis by (simp add: str_int_digits)
qed

text \<open>
  Claim C2, as stated, fails: with two items and one column \<^verbatim>\<open>update_context\<close> raises
  nothing and writes the first entry.
\<close>
theorem Token_update_context_mismatch_counterexample:
  "map_sum id (\<lambda>t. update_context t Map.empty)
     (set_columns (set_context_id (Token_init [PInt 7, PStr ''us-east'']) 2) [Column Inr]) =
   Inr (None, [''2'' \<mapsto> PInt 7])"
  by (simp add: str_int_digits)

text \<open>
  Claim C2, amended.  A token whose columns were never set raises \<^verbatim>\<open>TypeError\<close> and leaves
  the context as it was.  A token whose columns were set, in whatever number, is not
  checked against the number of items: when the columns serialize the items they are
  paired with, \<^verbatim>\<open>update_context\<close> returns normally, having written the first
  \<open>min (number of columns) (number of items)\<close> entries and nothing else.
\<close>
theorem Token_update_context_without_validation:
  assumes "\<forall>i<min (length cols) (length xs). to_database (cols ! i) (xs ! i) = Inr (stored i)"
  shows "update_context (Token k xs (Some c) None) ctx = (Some TypeError, ctx)
   \<and> fst (update_context (Token k xs (Some c) (Some cols)) ctx) = None
   \<and> (\<forall>i<min (length cols) (length xs).
        snd (update_context (Token k xs (Some c) (Some cols)) ctx) (str_int (c + int i)) =
        Some (stored i))
   \<and> (\<forall>key. key \<notin> (\<lambda>i. str_int (c + int i)) ` {..<min (length cols) (length xs)} \<longrightarrow>
        snd (update_context (Token k xs (Some c) (Some cols)) ctx) key = ctx key)"
proof -
  have "snd (update_context (Token k xs (Some c) (Some cols)) ctx) key = ctx key"
    if "key \<notin> (\<lambda>i. str_int (c + int i)) ` {..<min (length cols) (length xs)}" for key
  proof -
    from that have "key \<notin> (\<lambda>j. str_int (c + int j)) ` {0..<0 + length (zip cols xs)}"
      by (simp add: lessThan_atLeast0)
    from Token_update_loop_frame [OF this] show ?thesis by simp
  qed
  with Token_update_context_zip [OF assms] show ?thesis by simp
qed

theorem Token_update_context_without_validation_witness:
  "update_context (Token PyTuple [PInt 7, PStr ''us-east''] (Some 2) None) Map.empty =
     (Some TypeError, Map.empty)
   \<and> fst (update_context (Token PyTuple [PInt 7, PStr ''us-east''] (Some 2) (Some [Column Inr]))
        Map.empty) = None
   \<and> snd (update_context (Token PyTuple [PInt 7, PStr ''us-east''] (Some 2) (Some [Column Inr]))
        Map.empty) ''2'' = Some (PInt 7)
   \<and> snd (update_context (Token PyTuple [PInt 7, PStr ''us-east''] (Some 2) (Some [Column Inr]))
        Map.empty) ''3'' = None"
proof -
  have h: "\<forall>i<min (length [Column Inr]) (length [PInt 7, PStr ''us-east'']).
      to_database ([Column Inr] ! i) ([PInt 7, PStr ''us-east''] ! i) = Inr ([PInt 7] ! i)"
    by simp
  from Token_update_context_without_validation [OF h, of PyTuple 2 Map.empty]
  show ?thesis by (simp add: str_int_digits)
qed

text \<open>
  Claim C3, as stated, fails twice over.  One second and one millisecond after the epoch,
  written without timezone and written one hour ahead of UTC, is one instant, bound to 1000
  and to 1001: the two floating-point computations round differently.  Midnight UTC of
  1970-07-01, written without timezone and written in a zone that is one hour ahead in
  summer, is one instant, bound to values an hour apart: the code subtracts the offset the
  zone has at the epoch, not the one it has at the timestamp.
\<close>
theorem same_instant_counterexample:
  "same_instant
     \<lparr>year = 1970, month = 1, day = 1, hour = 0, minute = 0, second = 1,
        microsecond = 1000, tzinfo = None\<rparr>
     \<lparr>year = 1970, month = 1, day = 1, hour = 1, minute = 0, second = 1,
        microsecond = 1000, tzinfo = Some (fixed_offset 3600)\<rparr>
   \<and> update_context
     (MinTimeUUID \<lparr>year = 1970, month = 1, day = 1, hour = 0, minute = 0, second = 1,
        microsecond = 1000, tzinfo = None\<rparr> (Some 0)) Map.empty =
     (None, [''0'' \<mapsto> PInt 1000])
   \<and> update_context
     (MinTimeUUID \<lparr>year = 1970, month = 1, day = 1, hour = 1, minute = 0, second = 1,
        microsecond = 1000, tzinfo = Some (fixed_offset 3600)\<rparr> (Some 0)) Map.empty =
     (None, [''0'' \<mapsto> PInt 1001])
   \<and> same_instant
     \<lparr>year = 1970, month = 7, day = 1, hour = 0, minute = 0, second = 0,
        microsecond = 0, tzinfo = None\<rparr>
     \<lparr>year = 1970, month = 7, day = 1, hour = 1, minute = 0, second = 0,
        microsecond = 0, tzinfo = Some summer_time\<rparr>
   \<and> update_context
     (MinTimeUUID \<lparr>year = 1970, month = 7, day = 1, hour = 0, minute = 0, second = 0,
        microsecond = 0, tzinfo = None\<rparr> (Some 0)) Map.empty =
     (None, [''0'' \<mapsto> PInt 15638400000])
   \<and> update_context
     (MinTimeUUID \<lparr>year = 1970, month = 7, day = 1, hour = 1, minute = 0, second = 0,
        microsecond = 0, tzinfo = Some summer_time\<rparr> (Some 0)) Map.empty =
     (None, [''0'' \<mapsto> PInt 15642000000])"
proof -
  let ?a1 = "\<lparr>year = 1970, month = 1, day = 1, hour = 0, minute = 0, second = 1,
        microsecond = 1000, tzinfo = None\<rparr>"
  let ?a2 = "\<lparr>year = 1970, month = 1, day = 1, hour = 1, minute = 0, second = 1,
        microsecond = 1000, tzinfo = Some (fixed_offset 3600)\<rparr>"
  let ?b1 = "\<lparr>year = 1970, month = 7, day = 1, hour = 0, minute = 0, second = 0,
        microsecond = 0, tzinfo = None\<rparr>"
  let ?b2 = "\<lparr>year = 1970, month = 7, day = 1, hour = 1, minute = 0, second = 0,
        microsecond = 0, tzinfo = Some summer_time\<rparr>"
  have sa: "same_instant ?a1 ?a2" by code_simp
  have sb: "same_instant ?b1 ?b2" by code_simp
  have oa1: "offset_seconds ?a1 = Some 0" by (simp add: offset_seconds_naive)
  have oa2: "offset_seconds ?a2 = Some 3600" using offset_seconds_fixed [of 3600 ?a2] by simp
  have ob1: "offset_seconds ?b1 = Some 0" by (simp add: offset_seconds_naive)
  have ob2: "offset_seconds ?b2 = Some 0" by (simp add: offset_seconds_summer_time)
  have va1: "scale_then_truncate ?a1 0 = 1000" by code_simp
  have va2: "scale_then_truncate ?a2 3600 = 1001" by code_simp
  have vb1: "scale_then_truncate ?b1 0 = 15638400000" by code_simp
  have vb2: "scale_then_truncate ?b2 0 = 15642000000" by code_simp
  from sa sb
    update_context_Min_eq [OF oa1, of "Some 0" Map.empty]
    update_context_Min_eq [OF oa2, of "Some 0" Map.empty]
    update_context_Min_eq [OF ob1, of "Some 0" Map.empty]
    update_context_Min_eq [OF ob2, of "Some 0" Map.empty]
    va1 va2 vb1 vb2
  show ?thesis by (simp add: str_int_digits)
qed

text \<open>
  Claim C3, amended.  Take two valid timestamps that denote the same instant, each either
  without timezone or in a zone that gives at the epoch the offset it gives at the
  timestamp, a whole number of seconds.  Then \<^verbatim>\<open>MinTimeUUID\<close> and \<^verbatim>\<open>MaxTimeUUID\<close> bind each of
  them without error, the two millisecond values differ by at most one, and they are equal
  when both timestamps fall on whole seconds.
\<close>
theorem same_instant_milliseconds:
  assumes "valid_datetime t1" and "valid_datetime t2"
    and "steady_offset t1" and "steady_offset t2"
    and "same_instant t1 t2"
  shows "\<exists>m1 m2.
      update_context (MinTimeUUID t1 cid) ctx = (None, ctx(str_context_id cid \<mapsto> PInt m1))
    \<and> update_context (MaxTimeUUID t1 cid) ctx = (None, ctx(str_context_id cid \<mapsto> PInt m1))
    \<and> update_context (MinTimeUUID t2 cid) ctx = (None, ctx(str_context_id cid \<mapsto> PInt m2))
    \<and> update_context (MaxTimeUUID t2 cid) ctx = (None, ctx(str_context_id cid \<mapsto> PInt m2))
    \<and> \<bar>m1 - m2\<bar> \<le> 1
    \<and> (microsecond t1 = 0 \<and> microsecond t2 = 0 \<longrightarrow> m1 = m2)"
proof -
  from same_instant_close [OF assms] obtain off1 off2 where
    o1: "offset_seconds t1 = Some off1" and o2: "offset_seconds t2 = Some off2"
    and close: "\<bar>scale_then_truncate t1 off1 - scale_then_truncate t2 off2\<bar> \<le> 1"
    and whole: "microsecond t1 = 0 \<and> microsecond t2 = 0 \<longrightarrow>
          scale_then_truncate t1 off1 = scale_then_truncate t2 off2"
    by blast
  from update_context_Min_eq [OF o1, of cid ctx] update_context_Max_eq [OF o1, of cid ctx]
    update_context_Min_eq [OF o2, of cid ctx] update_context_Max_eq [OF o2, of cid ctx]
    close whole
  show ?thesis by blast
qed

theorem same_instant_milliseconds_witness:
  "valid_datetime \<lparr>year = 2013, month = 11, day = 15, hour = 12, minute = 30, second = 15,
        microsecond = 0, tzinfo = Some (fixed_offset 0)\<rparr>
   \<and> valid_datetime \<lparr>year = 2013, month = 11, day = 15, hour = 15, minute = 30, second = 15,
        microsecond = 0, tzinfo = Some (fixed_offset 10800)\<rparr>
   \<and> steady_offset \<lparr>year = 2013, month = 11, day = 15, hour = 12, minute = 30, second = 15,
        microsecond = 0, tzinfo = Some (fixed_offset 0)\<rparr>
   \<and> steady_offset \<lparr>year = 2013, month = 11, day = 15, hour = 15, minute = 30, second = 15,
        microsecond = 0, tzinfo = Some (fixed_offset 10800)\<rparr>
   \<and> same_instant
        \<lparr>year = 2013, month = 11, day = 15, hour = 12, minute = 30, second = 15,
           microsecond = 0, tzinfo = Some (fixed_offset 0)\<rparr>
        \<lparr>year = 2013, month = 11, day = 15, hour = 15, minute = 30, second = 15,
           microsecond = 0, tzinfo = Some (fixed_offset 10800)\<rparr>
   \<and> update_context
        (MinTimeUUID \<lparr>year = 2013, month = 11, day = 15, hour = 12, minute = 30, second = 15,
           microsecond = 0, tzinfo = Some (fixed_offset 0)\<rparr> (Some 0)) Map.empty =
       update_context
        (MinTimeUUID \<lparr>year = 2013, month = 11, day = 15, hour = 15, minute = 30, second = 15,
           microsecond = 0, tzinfo = Some (fixed_offset 10800)\<rparr> (Some 0)) Map.empty
   \<and> update_context
        (MaxTimeUUID \<lparr>year = 2013, month = 11, day = 15, hour = 12, minute = 30, second = 15,
           microsecond = 0, tzinfo = Some (fixed_offset 0)\<rparr> (Some 0)) Map.empty =
       update_context
        (MaxTimeUUID \<lparr>year = 2013, month = 11, day = 15, hour = 15, minute = 30, second = 15,
           microsecond = 0, tzinfo = Some (fixed_offset 10800)\<rparr> (Some 0)) Map.empty"
proof -
  let ?t1 = "\<lparr>year = 2013, month = 11, day = 15, hour = 12, minute = 30, second = 15,
        microsecond = 0, tzinfo = Some (fixed_offset 0)\<rparr>"
  let ?t2 = "\<lparr>year = 2013, month = 11, day = 15, hour = 15, minute = 30, second = 15,
        microsecond = 0, tzinfo = Some (fixed_offset 10800)\<rparr>"
  have v1: "valid_datetime ?t1" by code_simp
  have v2: "valid_datetime ?t2" by code_simp
  have s1: "steady_offset ?t1" by code_simp
  have s2: "steady_offset ?t2" by code_simp
  have si: "same_instant ?t1 ?t2" by code_simp
  from same_instant_milliseconds [OF v1 v2 s1 s2 si, of "Some 0" Map.empty]
  obtain m1 m2 where
    "update_context (MinTimeUUID ?t1 (Some 0)) Map.empty = (None, [str_int 0 \<mapsto> PInt m1])"
    "update_context (MaxTimeUUID ?t1 (Some 0)) Map.empty = (None, [str_int 0 \<mapsto> PInt m1])"
    "update_context (MinTimeUUID ?t2 (Some 0)) Map.empty = (None, [str_int 0 \<mapsto> PInt m2])"
    "update_context (MaxTimeUUID ?t2 (Some 0)) Map.empty = (None, [str_int 0 \<mapsto> PInt m2])"
    "m1 = m2"
    by auto
  with v1 v2 s1 s2 si show ?thesis by simp
qed

text \<open>
  Claim C4, as stated, fails on the payload: 600 microseconds after the epoch the code
  stores 0 where rounding gives 1, and 1.001 seconds after the epoch it stores 1000 where
  rounding gives 1001 (the floating-point product is just below 1001).
\<close>
theorem rounded_milliseconds_counterexample:
  "update_context
     (MinTimeUUID \<lparr>year = 1970, month = 1, day = 1, hour = 0, minute = 0, second = 0,
        microsecond = 600, tzinfo = None\<rparr> (Some 0)) Map.empty =
     (None, [''0'' \<mapsto> PInt 0])
   \<and> rounded_milliseconds \<lparr>year = 1970, month = 1, day = 1, hour = 0, minute = 0, second = 0,
        microsecond = 600, tzinfo = None\<rparr> = 1
   \<and> update_context
     (MinTimeUUID \<lparr>year = 1970, month = 1, day = 1, hour = 0, minute = 0, second = 1,
        microsecond = 1000, tzinfo = None\<rparr> (Some 0)) Map.empty =
     (None, [''0'' \<mapsto> PInt 1000])
   \<and> rounded_milliseconds \<lparr>year = 1970, month = 1, day = 1, hour = 0, minute = 0, second = 1,
        microsecond = 1000, tzinfo = None\<rparr> = 1001"
proof -
  let ?t = "\<lparr>year = 1970, month = 1, day = 1, hour = 0, minute = 0, second = 0,
        microsecond = 600, tzinfo = None\<rparr>"
  let ?u = "\<lparr>year = 1970, month = 1, day = 1, hour = 0, minute = 0, second = 1,
        microsecond = 1000, tzinfo = None\<rparr>"
  have offt: "offset_seconds ?t = Some 0" by (simp add: offset_seconds_naive)
  have offu: "offset_seconds ?u = Some 0" by (simp add: offset_seconds_naive)
  have codet: "scale_then_truncate ?t 0 = 0" by code_simp
  have codeu: "scale_then_truncate ?u 0 = 1000" by code_simp
  have spect: "rounded_milliseconds ?t = 1" by code_simp
  have specu: "rounded_milliseconds ?u = 1001" by code_simp
  from update_context_Min_eq [OF offt, of "Some 0" Map.empty]
    update_context_Min_eq [OF offu, of "Some 0" Map.empty] codet codeu spect specu
  show ?thesis by (simp add: str_int_digits)
qed

text \<open>
  Claim C4, amended.  For a timestamp without timezone, \<^verbatim>\<open>MinTimeUUID\<close> and \<^verbatim>\<open>MaxTimeUUID\<close>
  store the same payload, the truncation toward zero of the floating-point product of the
  seconds since the epoch and 1000; they render as \<^verbatim>\<open>MinTimeUUID(:id)\<close> and
  \<^verbatim>\<open>MaxTimeUUID(:id)\<close>.
\<close>
theorem naive_time_uuid_payloads:
  assumes "tzinfo t = None"
  shows "update_context (MinTimeUUID t (Some c)) ctx =
           (None, ctx(str_int c \<mapsto> PInt (truncated_milliseconds t)))
       \<and> update_context (MaxTimeUUID t (Some c)) ctx =
           (None, ctx(str_int c \<mapsto> PInt (truncated_milliseconds t)))
       \<and> unicode (MinTimeUUID t (Some c)) = Inr (''MinTimeUUID(:'' @ str_int c @ '')'')
       \<and> unicode (MaxTimeUUID t (Some c)) = Inr (''MaxTimeUUID(:'' @ str_int c @ '')'')"
  using update_context_Min_eq [OF offset_seconds_naive [OF assms], of "Some c" ctx]
    update_context_Max_eq [OF offset_seconds_naive [OF assms], of "Some c" ctx]
  by (simp add: scale_then_truncate_naive)

theorem naive_time_uuid_payloads_witness:
  "update_context
     (MinTimeUUID \<lparr>year = 2013, month = 11, day = 15, hour = 12, minute = 30, second = 15,
        microsecond = 250000, tzinfo = None\<rparr> (Some 0)) Map.empty =
     (None, [''0'' \<mapsto> PInt 1384518615250])
   \<and> update_context
     (MaxTimeUUID \<lparr>year = 2013, month = 11, day = 15, hour = 12, minute = 30, second = 15,
        microsecond = 250000, tzinfo = None\<rparr> (Some 0)) Map.empty =
     (None, [''0'' \<mapsto> PInt 1384518615250])
   \<and> unicode
     (MinTimeUUID \<lparr>year = 2013, month = 11, day = 15, hour = 12, minute = 30, second = 15,
        microsecond = 250000, tzinfo = None\<rparr> (Some 0)) = Inr ''MinTimeUUID(:0)''
   \<and> unicode
     (MaxTimeUUID \<lparr>year = 2013, month = 11, day = 15, hour = 12, minute = 30, second = 15,
        microsecond = 250000, tzinfo = None\<rparr> (Some 0)) = Inr ''MaxTimeUUID(:0)''"
proof -
  let ?t = "\<lparr>year = 2013, month = 11, day = 15, hour = 12, minute = 30, second = 15,
        microsecond = 250000, tzinfo = None\<rparr>"
  have naive: "tzinfo ?t = None" by simp
  have code: "truncated_milliseconds ?t = 1384518615250" by code_simp
  from naive_time_uuid_payloads [OF naive, of 0 Map.empty] code
  show ?thesis by (simp add: str_int_digits)
qed

text \<open>
  Claim C5.  A token built from its arguments, given the context id \<open>c\<close> and as many
  columns as its value has items \<open>n\<close>, each of which serializes its item: \<^verbatim>\<open>__unicode__\<close>
  returns \<^verbatim>\<open>token(\<close>, the \<open>n\<close> markers \<^verbatim>\<open>:c\<close>, ..., \<^verbatim>\<open>:c+n-1\<close> joined by \<^verbatim>\<open>, \<close>, and \<^verbatim>\<open>)\<close>;
  \<^verbatim>\<open>update_context\<close> returns normally, the entry under the text of \<open>c + i\<close> is what column
  \<open>i\<close> made of item \<open>i\<close>, every other key is as before, and the \<open>n\<close> keys are distinct.
\<close>
theorem Token_render_and_populate:
  assumes built: "set_columns (set_context_id (Token_init args) c) cols = Inr tok"
    and n: "n = get_context_size tok"
    and len: "length cols = n"
    and ser: "\<forall>i<n. to_database (cols ! i) (token_items tok ! i) = Inr (stored i)"
  shows "unicode tok =
           Inr (''token('' @ py_join '', '' (map (\<lambda>i. '':'' @ str_int (c + int i)) [0..<n]) @ '')'')
         \<and> fst (update_context tok ctx) = None
         \<and> (\<forall>i<n. snd (update_context tok ctx) (str_int (c + int i)) = Some (stored i))
         \<and> (\<forall>key. key \<notin> (\<lambda>i. str_int (c + int i)) ` {..<n} \<longrightarrow>
               snd (update_context tok ctx) key = ctx key)
         \<and> card ((\<lambda>i. str_int (c + int i)) ` {..<n}) = n"
proof -
  obtain k xs where init: "Token_init args = Token k xs None None"
    by (cases "Token_init args") (auto simp: Token_init_cases split: if_splits pyval.splits)
  with built have tok: "tok = Token k xs (Some c) (Some cols)" by auto
  with n have n': "n = length xs" by simp
  from ser tok n' len
  have ser': "\<forall>i<min (length cols) (length xs). to_database (cols ! i) (xs ! i) = Inr (stored i)"
    by simp
  have "inj_on (\<lambda>i. str_int (c + int i)) {..<n}" by (rule inj_onI) simp
  then have "card ((\<lambda>i. str_int (c + int i)) ` {..<n}) = n" by (simp add: card_image)
  moreover have "unicode tok =
      Inr (''token('' @ py_join '', '' (map (\<lambda>i. '':'' @ str_int (c + int i)) [0..<n]) @ '')'')"
    unfolding tok n' by (rule Token_unicode)
  moreover have "fst (update_context tok ctx) = None"
    unfolding tok by (rule Token_update_context_zip(1) [OF ser'])
  moreover have "\<forall>i<n. snd (update_context tok ctx) (str_int (c + int i)) = Some (stored i)"
    unfolding tok using Token_update_context_zip(2) [OF ser'] len n' by simp
  moreover have "\<forall>key. key \<notin> (\<lambda>i. str_int (c + int i)) ` {..<n} \<longrightarrow>
      snd (update_context tok ctx) key = ctx key"
    unfolding tok n' using Token_update_context_frame by blast
  ultimately show ?thesis by blast
qed

theorem Token_render_and_populate_witness:
  "unicode (Token PyTuple [PInt 7, PStr ''us-east''] (Some 2)
      (Some [Column Inr, Column (\<lambda>v. Inr (PSeq PyList [v]))])) = Inr ''token(:2, :3)''
   \<and> update_context (Token PyTuple [PInt 7, PStr ''us-east''] (Some 2)
      (Some [Column Inr, Column (\<lambda>v. Inr (PSeq PyList [v]))])) Map.empty =
     (None, [''2'' \<mapsto> PInt 7, ''3'' \<mapsto> PSeq PyList [PStr ''us-east'']])"
proof -
  let ?cols = "[Column Inr, Column (\<lambda>v. Inr (PSeq PyList [v]))]"
  let ?tok = "Token PyTuple [PInt 7, PStr ''us-east''] (Some 2) (Some ?cols)"
  have built: "set_columns (set_context_id (Token_init [PInt 7, PStr ''us-east'']) 2) ?cols = Inr ?tok"
    by simp
  have n: "2 = get_context_size ?tok" by simp
  have len: "length ?cols = 2" by simp
  have ser: "\<forall>i<2. to_database (?cols ! i) (token_items ?tok ! i) =
      Inr ([PInt 7, PSeq PyList [PStr ''us-east'']] ! i)"
    by (simp add: less_Suc_eq numeral_2_eq_2)
  from Token_render_and_populate [OF built n len ser, of Map.empty]
  show ?thesis
    by (simp add: str_int_digits numeral_2_eq_2 less_Suc_eq)
qed

text \<open>
  Claim C6.  The constructors of \<^verbatim>\<open>MinTimeUUID\<close> and \<^verbatim>\<open>MaxTimeUUID\<close> raise
  \<^verbatim>\<open>ValidationError\<close> (the specification's InvalidArgument) for an argument that is not a
  datetime; no object is built.
\<close>
theorem time_uuid_init_rejects_non_datetime:
  "\<not> isinstance_datetime v \<Longrightarrow>
   MinTimeUUID_init v = Inl (ValidationError ''datetime instance is required'')
   \<and> MaxTimeUUID_init v = Inl (ValidationError ''datetime instance is required'')"
  by (cases v) simp_all

theorem time_uuid_init_rejects_non_datetime_witness:
  "\<not> isinstance_datetime (PInt 5)
   \<and> MinTimeUUID_init (PInt 5) = Inl (ValidationError ''datetime instance is required'')
   \<and> MaxTimeUUID_init (PInt 5) = Inl (ValidationError ''datetime instance is required'')"
proof -
  have h: "\<not> isinstance_datetime (PInt 5)" by simp
  from h time_uuid_init_rejects_non_datetime [OF h] show ?thesis by simp
qed



text \<open>
  Claim C8.  For each of the four classes, with the context id \<open>c\<close> assigned,
  \<^verbatim>\<open>update_context\<close> leaves every key other than the texts of \<open>c\<close>, ..., \<open>c + size - 1\<close> as
  it was: a key that was absent stays absent, a key that was present keeps its value.  This
  holds too when the call raises.  The context is the only state the function returns.
\<close>
theorem update_context_frame:
  assumes cid: "context_id q = Some c"
    and key: "key \<notin> (\<lambda>i. str_int (c + int i)) ` {..<get_context_size q}"
  shows "snd (update_context q ctx) key = ctx key"
proof (cases q)
  case (QueryValue v cid')
  with cid key show ?thesis by (simp add: lessThan_Suc)
next
  case (MinTimeUUID d cid')
  with cid key show ?thesis
    by (simp add: MinTimeUUID_update_context_def Let_def lessThan_Suc
        split: sum.splits option.splits)
next
  case (MaxTimeUUID d cid')
  with cid key show ?thesis
    by (simp add: MaxTimeUUID_update_context_def Let_def lessThan_Suc
        split: sum.splits option.splits)
next
  case (Token k xs cid' cols)
  with cid key have "key \<notin> (\<lambda>i. str_int (c + int i)) ` {..<length xs}" by simp
  from Token_update_context_frame [OF this] Token cid show ?thesis by simp
qed

theorem update_context_frame_witness:
  "snd (update_context (QueryValue (PInt 5) (Some 3)) [''7'' \<mapsto> PStr ''x'']) ''7'' = Some (PStr ''x'')
   \<and> snd (update_context (Token PyTuple [PInt 1, PInt 2] (Some 3) (Some [Column Inr, Column Inr]))
        [''5'' \<mapsto> PStr ''x'']) ''5'' = Some (PStr ''x'')"
proof -
  have a: "context_id (QueryValue (PInt 5) (Some 3)) = Some 3" by simp
  have b: "''7'' \<notin> (\<lambda>i. str_int (3 + int i)) ` {..<get_context_size (QueryValue (PInt 5) (Some 3))}"
    by (simp add: str_int_digits lessThan_Suc)
  have c: "context_id (Token PyTuple [PInt 1, PInt 2] (Some 3) (Some [Column Inr, Column Inr])) = Some 3"
    by simp
  have d: "''5'' \<notin> (\<lambda>i. str_int (3 + int i)) `
      {..<get_context_size (Token PyTuple [PInt 1, PInt 2] (Some 3) (Some [Column Inr, Column Inr]))}"
    by (simp add: str_int_digits lessThan_Suc numeral_2_eq_2)
  from update_context_frame [OF a b, of "[''7'' \<mapsto> PStr ''x'']"]
    update_context_frame [OF c d, of "[''5'' \<mapsto> PStr ''x'']"]
  show ?thesis by simp
qed

text \<open>
  Claim C9.  \<^verbatim>\<open>set_context_id\<close> has no error result and assigning twice is assigning the
  second id: the object is the one a single assignment of \<open>b\<close> gives, and \<^verbatim>\<open>__unicode__\<close>
  and \<^verbatim>\<open>update_context\<close> use \<open>b\<close>.
\<close>
theorem set_context_id_overwrites:
  "set_context_id (set_context_id q a) b = set_context_id q b
   \<and> context_id (set_context_id (set_context_id q a) b) = Some b
   \<and> unicode (set_context_id (set_context_id (QueryValue v cid) a) b) = Inr ('':'' @ str_int b)
   \<and> unicode (set_context_id (set_context_id (MinTimeUUID d cid) a) b) =
       Inr (''MinTimeUUID(:'' @ str_int b @ '')'')
   \<and> unicode (set_context_id (set_context_id (MaxTimeUUID d cid) a) b) =
       Inr (''MaxTimeUUID(:'' @ str_int b @ '')'')
   \<and> unicode (set_context_id (set_context_id (Token k xs cid cols) a) b) =
       Inr (''token('' @ py_join '', '' (map (\<lambda>i. '':'' @ str_int (b + int i)) [0..<length xs])
            @ '')'')
   \<and> update_context (set_context_id (set_context_id (QueryValue v cid) a) b) ctx =
       (None, ctx(str_int b \<mapsto> v))"
  by (cases q) simp_all

theorem set_context_id_overwrites_witness:
  "unicode (set_context_id (set_context_id (QueryValue_init (PInt 5)) 0) 1) = Inr '':1''
   \<and> update_context (set_context_id (set_context_id (QueryValue_init (PInt 5)) 0) 1) Map.empty =
       (None, [''1'' \<mapsto> PInt 5])"
  using set_context_id_overwrites [where q = "QueryValue (PInt 5) None" and a = 0 and b = 1
      and v = "PInt 5" and cid = None and ctx = Map.empty]
  by (simp add: QueryValue_init_def str_int_digits)

text \<open>
  Claim C10.  A single argument that is neither a list nor a tuple stays wrapped: the value
  is the one-element argument tuple and the context size is 1.  A single list or tuple is
  itself the value.
\<close>
theorem Token_init_single_argument:
  "(\<not> isinstance_list_tuple v \<longrightarrow>
      Token_init [v] = Token PyTuple [v] None None
      \<and> token_items (Token_init [v]) = [v]
      \<and> get_context_size (Token_init [v]) = 1)
   \<and> Token_init [PSeq k xs] = Token k xs None None
   \<and> token_items (Token_init [PSeq k xs]) = xs
   \<and> get_context_size (Token_init [PSeq k xs]) = length xs"
  by (cases v) simp_all

theorem Token_init_single_argument_witness:
  "\<not> isinstance_list_tuple (PStr ''abc'')
   \<and> token_items (Token_init [PStr ''abc'']) = [PStr ''abc'']
   \<and> get_context_size (Token_init [PStr ''abc'']) = 1
   \<and> get_context_size (Token_init [PSeq PyList [PStr ''a'', PStr ''b'', PStr ''c'']]) = 3"
  using Token_init_single_argument [of "PStr ''abc''" PyList "[PStr ''a'', PStr ''b'', PStr ''c'']"]
  by simp

end
